theory Spec2Isabelle
  imports Main "HOL-Library.Word"
begin

section \<open>JavaScript numbers on integer values\<close>

text \<open>
  The calculation code multiplies and adds values of the TypeScript type \<open>number\<close>, an
  IEEE 754 double. On integers the exact result of \<open>*\<close> and \<open>+\<close> is an integer, and the
  machine result is that integer rounded to 53 significant bits, ties to even.
  \<open>round_to_double\<close> is this rounding; it covers magnitudes below \<open>2 ^ 1024\<close>, where a
  double does not overflow to Infinity. Link counters are \<open>int4\<close> columns and instants are
  milliseconds of a \<open>Date\<close>, both far inside the exact range, so the handlers below use
  plain integer arithmetic for them.
\<close>

function bitlen :: "int \<Rightarrow> nat" where
  "bitlen n = (if n \<le> 0 then 0 else Suc (bitlen (n div 2)))"
  by pat_completeness auto
termination
  by (relation "measure nat") auto

declare bitlen.simps [simp del]

definition round_to_double :: "int \<Rightarrow> int" where
  "round_to_double x =
     (let m = \<bar>x\<bar>; k = bitlen m in
      if k \<le> 53 then x
      else
        let e = k - 53;
            q = m div 2 ^ e;
            r = m mod 2 ^ e;
            h = 2 ^ (e - 1);
            q' = (if h < r \<or> (r = h \<and> odd q) then q + 1 else q)
        in sgn x * (q' * 2 ^ e))"

definition number_mul :: "int \<Rightarrow> int \<Rightarrow> int" where
  "number_mul a b = round_to_double (a * b)"

definition number_add :: "int \<Rightarrow> int \<Rightarrow> int" where
  "number_add a b = round_to_double (a + b)"

section \<open>Constants\<close>

text \<open>\<open>src/lib/constants.ts\<close>, imported by \<open>src/lib/calculator.ts\<close>.\<close>

definition RATE_TOTAL :: int where "RATE_TOTAL = 3356"
definition RATE_ER :: int where "RATE_ER = 1186"
definition RATE_EE :: int where "RATE_EE = 2170"

text \<open>
  \<open>supabase/functions/_shared/constants.ts\<close>, imported by the edge functions. The names
  \<open>RATE_TOTAL\<close>, \<open>RATE_ER\<close> and \<open>RATE_EE\<close> are the same in both files; the edge copies carry
  the prefix \<open>shared\<close> here.
\<close>

definition shared_RATE_TOTAL :: int where "shared_RATE_TOTAL = 3357"
definition shared_RATE_ER :: int where "shared_RATE_ER = 1187"
definition shared_RATE_EE :: int where "shared_RATE_EE = 2170"
definition LINK_EXPIRY_DAYS :: int where "LINK_EXPIRY_DAYS = 30"
definition LOCK_DURATION_MINUTES :: int where "LOCK_DURATION_MINUTES = 30"
definition MAX_ATTEMPTS :: int where "MAX_ATTEMPTS = 10"
definition IDEMPOTENCY_WINDOW_SECONDS :: int where "IDEMPOTENCY_WINDOW_SECONDS = 60"

section \<open>Calculation\<close>

record calc_inputs =
  w2_count :: int
  tax_year :: int
  rate_total :: int
  rate_er :: int
  rate_ee :: int

text \<open>
  \<open>CalculationResult\<close> of \<open>calculator.ts\<close>. The field \<open>calc_explanation\<close>, a rendering of the
  same figures through \<open>Intl.NumberFormat\<close>, is not part of the model.
\<close>

record CalculationResult =
  calc_total :: int
  calc_er :: int
  calc_ee :: int
  calc_inputs :: calc_inputs

text \<open>
  \<open>calculateSavings\<close>; \<open>taxYear\<close> is the value of \<open>new Date().getFullYear()\<close>.
\<close>

definition calculateSavings :: "int \<Rightarrow> int \<Rightarrow> CalculationResult" where
  "calculateSavings taxYear w2Count =
     (let calcTotal = number_mul w2Count RATE_TOTAL;
          calcEr = number_mul w2Count RATE_ER;
          calcEe = number_mul w2Count RATE_EE
      in \<lparr> calc_total = calcTotal, calc_er = calcEr, calc_ee = calcEe,
           calc_inputs = \<lparr> w2_count = w2Count, tax_year = taxYear,
             rate_total = RATE_TOTAL, rate_er = RATE_ER, rate_ee = RATE_EE \<rparr> \<rparr>)"

text \<open>
  Step 7 of the Pipedrive webhook handler (\<open>generate_case_from_pipedrive\<close>): the inline
  calculation, with the rates of the shared constants file.
\<close>

definition pipedrive_calculate :: "int \<Rightarrow> int \<Rightarrow> CalculationResult" where
  "pipedrive_calculate taxYear w2Count =
     (let calcTotal = number_mul w2Count shared_RATE_TOTAL;
          calcEr = number_mul w2Count shared_RATE_ER;
          calcEe = number_mul w2Count shared_RATE_EE;
          calcInputs = \<lparr> w2_count = w2Count, tax_year = taxYear,
             rate_total = shared_RATE_TOTAL, rate_er = shared_RATE_ER,
             rate_ee = shared_RATE_EE \<rparr>
      in \<lparr> calc_total = calcTotal, calc_er = calcEr, calc_ee = calcEe,
           calc_inputs = calcInputs \<rparr>)"

section \<open>Secret hashing\<close>

text \<open>
  \<open>hashWithPepper\<close> of \<open>_shared/crypto.ts\<close>. The platform primitive
  \<open>crypto.subtle.digest("SHA-256", _)\<close> is a parameter \<open>digest\<close> of the model: a function
  from the encoded bytes of a string to the bytes of the digest. The hex encoding of the
  digest is the code of the repository and is modelled as written.
\<close>

type_synonym digest_fn = "string \<Rightarrow> 8 word list"

definition hexdigit :: "nat \<Rightarrow> char" where
  "hexdigit d = ''0123456789abcdef'' ! d"

text \<open>\<open>Number.prototype.toString(16)\<close> on a non-negative integer.\<close>

fun toString16 :: "nat \<Rightarrow> string" where
  "toString16 n =
     (if n < 16 then [hexdigit n] else toString16 (n div 16) @ [hexdigit (n mod 16)])"

declare toString16.simps [simp del]

definition padStart :: "nat \<Rightarrow> char \<Rightarrow> string \<Rightarrow> string" where
  "padStart n c s = replicate (n - length s) c @ s"

definition hashWithPepper :: "digest_fn \<Rightarrow> string \<Rightarrow> string \<Rightarrow> string" where
  "hashWithPepper digest v pepper =
     concat (map (\<lambda>b. padStart 2 (CHR ''0'') (toString16 (unat b))) (digest (pepper @ v)))"

section \<open>The store\<close>

text \<open>
  Instants are milliseconds since the epoch: the value of \<open>Date.getTime()\<close>. A
  \<open>timestamptz\<close> column written with \<open>toISOString()\<close> and read back with \<open>new Date(_)\<close>
  gives the same instant.
\<close>

type_synonym instant = int

text \<open>A row of \<open>case_links\<close> (migration 00001).\<close>

record case_link =
  link_id :: string
  case_id :: string
  token_hash :: string
  passcode_hash :: string
  expires_at :: instant
  revoked_at :: "instant option"
  attempt_count :: int
  locked_until :: "instant option"
  view_count :: int
  last_viewed_at :: "instant option"

text \<open>
  A row of \<open>cases\<close>. The columns \<open>calc_total\<close>, \<open>calc_er\<close>, \<open>calc_ee\<close> and \<open>calc_inputs\<close> are
  the field \<open>calc\<close>; the column \<open>id\<close> is \<open>row_id\<close>.
\<close>

record case_row =
  row_id :: string
  pipedrive_deal_id :: "string option"
  company_name :: string
  industry :: string
  status :: string
  calc :: CalculationResult
  last_generated_at :: "instant option"

text \<open>
  The database: the two tables, and whether the unique constraint
  \<open>cases_pipedrive_deal_id_key\<close> on \<open>cases.pipedrive_deal_id\<close> is in place. Migration 00001
  creates the constraint and migration 00002 drops it, so it is absent on the schema of the
  repository with both migrations applied.
\<close>

record store =
  cases_table :: "case_row list"
  links_table :: "case_link list"
  deal_id_key :: bool

text \<open>
  A call of the supabase-js client resolves to \<open>{ data, error }\<close>; it does not throw. The
  handlers read \<open>error\<close> after some calls and drop it after others. Which kinds of call
  come back with an error on a request is an input of the model.
\<close>

record faults =
  links_select_fails :: bool
  links_update_fails :: bool
  links_insert_fails :: bool
  cases_select_fails :: bool
  cases_update_fails :: bool
  cases_upsert_fails :: bool

definition no_faults :: faults where
  "no_faults = \<lparr> links_select_fails = False, links_update_fails = False,
     links_insert_fails = False, cases_select_fails = False, cases_update_fails = False,
     cases_upsert_fails = False \<rparr>"

datatype 'a selected = SelectError | NoRow | Row 'a

text \<open>\<open>.maybeSingle()\<close>: no row is no data, several rows are an error.\<close>

definition maybeSingle :: "'a list \<Rightarrow> 'a selected" where
  "maybeSingle rows = (case rows of [] \<Rightarrow> NoRow | [r] \<Rightarrow> Row r | _ \<Rightarrow> SelectError)"

text \<open>\<open>.single()\<close>: anything but one row is an error.\<close>

definition single :: "'a list \<Rightarrow> 'a selected" where
  "single rows = (case rows of [r] \<Rightarrow> Row r | _ \<Rightarrow> SelectError)"

definition select_link :: "faults \<Rightarrow> store \<Rightarrow> string \<Rightarrow> string \<Rightarrow> case_link selected" where
  "select_link f s tokenHash caseId =
     (if links_select_fails f then SelectError
      else maybeSingle
        (filter (\<lambda>r. token_hash r = tokenHash \<and> case_id r = caseId) (links_table s)))"

definition select_case :: "faults \<Rightarrow> store \<Rightarrow> string \<Rightarrow> case_row selected" where
  "select_case f s caseId =
     (if cases_select_fails f then SelectError
      else single (filter (\<lambda>c. row_id c = caseId) (cases_table s)))"

text \<open>
  \<open>.update(_)\<close> on \<open>case_links\<close> with its filters as the predicate \<open>p\<close>. A failed update
  changes nothing; every caller drops or only logs the error, so only the store is
  returned.
\<close>

definition update_links ::
  "faults \<Rightarrow> store \<Rightarrow> (case_link \<Rightarrow> bool) \<Rightarrow> (case_link \<Rightarrow> case_link) \<Rightarrow> store" where
  "update_links f s p upd =
     (if links_update_fails f then s
      else s\<lparr> links_table := map (\<lambda>r. if p r then upd r else r) (links_table s) \<rparr>)"

section \<open>Environment and HTTP\<close>

type_synonym environ = "string \<Rightarrow> string option"

text \<open>The \<open>env\<close> helper: \<open>None\<close> is the thrown \<open>Missing env var\<close>.\<close>

definition env :: "environ \<Rightarrow> string \<Rightarrow> string option" where
  "env vars key = (case vars key of None \<Rightarrow> None | Some v \<Rightarrow> if v = [] then None else Some v)"

text \<open>\<open>getServiceClient\<close>: \<open>False\<close> is the thrown error of a missing URL or key.\<close>

definition getServiceClient :: "environ \<Rightarrow> bool" where
  "getServiceClient vars =
     (env vars ''SUPABASE_URL'' \<noteq> None \<and> env vars ''SUPABASE_SERVICE_ROLE_KEY'' \<noteq> None)"

text \<open>
  A request with a JSON body: \<open>req_method\<close> is \<open>req.method\<close>, and \<open>body = None\<close> is a body
  that \<open>req.json()\<close> cannot parse (it throws). A missing field of the body and an empty
  one are both falsy; both are the empty string here.
\<close>

record 'b request =
  req_method :: string
  body :: "'b option"

datatype 'a response = Plain nat string | Json nat 'a

section \<open>Access validator\<close>

datatype AccessState = success | invalid | expired | revoked | locked | wrong_passcode

text \<open>The columns of \<open>cases\<close> that the validator selects in Step 7.\<close>

record case_data =
  data_id :: string
  data_company_name :: string
  data_industry :: string
  data_calc :: CalculationResult
  data_status :: string

definition case_data_of :: "case_row \<Rightarrow> case_data" where
  "case_data_of c = \<lparr> data_id = row_id c, data_company_name = company_name c,
     data_industry = industry c, data_calc = calc c, data_status = status c \<rparr>"

text \<open>
  \<open>AccessResponse\<close>, with the \<open>locked_until\<close> that \<open>jsonResponse\<close> merges into the body
  of the reply to a locked link as \<open>unlock_at\<close>. The \<open>error\<close> text of the 405 reply is left
  out.
\<close>

record AccessResponse =
  ok :: bool
  state :: AccessState
  data :: "case_data option"
  remaining_attempts :: "int option"
  unlock_at :: "instant option"

definition reply :: "bool \<Rightarrow> AccessState \<Rightarrow> AccessResponse" where
  "reply k st = \<lparr> ok = k, state = st, data = None, remaining_attempts = None,
     unlock_at = None \<rparr>"

definition jsonResponse :: "'a \<Rightarrow> nat \<Rightarrow> 'a response" where
  "jsonResponse b st = Json st b"

text \<open>
  The body of a verification request. The page sends the six digits of the passcode as
  a string, on which \<open>String(passcode)\<close> is the identity.
\<close>

record access_body =
  body_case_id :: string
  token :: string
  passcode :: string

text \<open>
  Step 5 of the handler: the passcode is wrong. \<open>dateNow\<close> is the value of \<open>Date.now()\<close>
  read for the lock. \<open>link.attempt_count || 0\<close> is \<open>attempt_count link\<close>, the column being
  a number.
\<close>

definition wrong_passcode_step ::
  "faults \<Rightarrow> instant \<Rightarrow> store \<Rightarrow> case_link \<Rightarrow> AccessResponse response \<times> store" where
  "wrong_passcode_step f dateNow s link =
     (let newAttemptCount = attempt_count link + 1;
          updates = (\<lambda>r. if newAttemptCount \<ge> MAX_ATTEMPTS
             then r\<lparr> attempt_count := newAttemptCount,
                     locked_until := Some (dateNow + LOCK_DURATION_MINUTES * 60 * 1000) \<rparr>
             else r\<lparr> attempt_count := newAttemptCount \<rparr>);
          s' = update_links f s (\<lambda>r. link_id r = link_id link) updates
      in if newAttemptCount \<ge> MAX_ATTEMPTS
         then (jsonResponse (reply False locked) 200, s')
         else (jsonResponse
                 ((reply False wrong_passcode)
                    \<lparr> remaining_attempts := Some (MAX_ATTEMPTS - newAttemptCount) \<rparr>) 200, s'))"

text \<open>Steps 6 and 7: the passcode is right. \<open>now\<close> is the \<open>new Date()\<close> of Step 3.\<close>

definition correct_passcode_step ::
  "faults \<Rightarrow> instant \<Rightarrow> store \<Rightarrow> case_link \<Rightarrow> string \<Rightarrow> AccessResponse response \<times> store" where
  "correct_passcode_step f now s link caseId =
     (let s' = update_links f s (\<lambda>r. link_id r = link_id link)
                 (\<lambda>r. r\<lparr> attempt_count := 0, view_count := view_count link + 1,
                         last_viewed_at := Some now \<rparr>)
      in case select_case f s' caseId of
           Row caseData \<Rightarrow>
             (jsonResponse ((reply True success)\<lparr> data := Some (case_data_of caseData) \<rparr>) 200, s')
         | _ \<Rightarrow> (jsonResponse (reply False invalid) 200, s'))"

definition is_locked :: "case_link \<Rightarrow> instant \<Rightarrow> bool" where
  "is_locked link now = (case locked_until link of None \<Rightarrow> False | Some t \<Rightarrow> now < t)"

text \<open>
  The handler of \<open>validate_case_access/index.ts\<close>. A thrown error ends in the \<open>catch\<close>:
  state \<open>invalid\<close>, status 500.
\<close>

definition validate_case_access ::
  "digest_fn \<Rightarrow> environ \<Rightarrow> faults \<Rightarrow> instant \<Rightarrow> instant \<Rightarrow> store \<Rightarrow> access_body request
     \<Rightarrow> AccessResponse response \<times> store" where
  "validate_case_access digest vars f now dateNow s req =
     (if req_method req = ''OPTIONS'' then (Plain 200 ''ok'', s)
      else if req_method req \<noteq> ''POST'' then (jsonResponse (reply False invalid) 405, s)
      else case body req of
        None \<Rightarrow> (jsonResponse (reply False invalid) 500, s)
      | Some b \<Rightarrow>
         (if body_case_id b = [] \<or> token b = [] \<or> passcode b = []
          then (jsonResponse (reply False invalid) 400, s)
          else (case env vars ''LINK_PEPPER'' of
            None \<Rightarrow> (jsonResponse (reply False invalid) 500, s)
          | Some pepper \<Rightarrow>
             (if \<not> getServiceClient vars then (jsonResponse (reply False invalid) 500, s)
              else
                let tokenHash = hashWithPepper digest (token b) pepper in
                (case select_link f s tokenHash (body_case_id b) of
                  SelectError \<Rightarrow> (jsonResponse (reply False invalid) 500, s)
                | NoRow \<Rightarrow> (jsonResponse (reply False invalid) 200, s)
                | Row link \<Rightarrow>
                   (if revoked_at link \<noteq> None
                    then (jsonResponse (reply False revoked) 200, s)
                    else if expires_at link < now
                    then (jsonResponse (reply False expired) 200, s)
                    else if is_locked link now
                    then (jsonResponse
                            ((reply False locked)\<lparr> unlock_at := locked_until link \<rparr>) 200, s)
                    else
                      let passcodeHash = hashWithPepper digest (passcode b) pepper;
                          isCorrect = (passcodeHash = passcode_hash link)
                      in if \<not> isCorrect then wrong_passcode_step f dateNow s link
                         else correct_passcode_step f now s link (body_case_id b)))))))"

section \<open>Link issuance\<close>

text \<open>
  The values a request reads from outside: clock readings (\<open>new Date()\<close>, \<open>Date.now()\<close>) in
  the order of the handlers' steps, and freshly generated values (\<open>generateToken()\<close>,
  \<open>generatePasscode()\<close>, the \<open>gen_random_uuid()\<close> defaults of the \<open>id\<close> columns).
\<close>

record clock =
  year_now :: int
  guard_now :: instant
  generated_now :: instant
  revoke_now :: instant
  expiry_now :: instant

record fresh =
  rawToken :: string
  rawPasscode :: string
  new_link_id :: string
  new_case_id :: string

datatype gen_error =
  MethodNotAllowed | Unauthorized | CaseIdRequired | CaseNotFound | UpsertFailed
  | CreateLinkFailed | Thrown

text \<open>
  The JSON bodies of the two issuing handlers: an error, \<open>skipped\<close>, \<open>skipped\<close> with reason
  \<open>idempotency_window\<close> and the case id, the list of missing fields, or the issued link
  (\<open>case_id\<close>, \<open>url\<close>, \<open>passcode\<close>, \<open>expires_at\<close>).
\<close>

datatype gen_reply =
  Failed gen_error
  | Skipped
  | SkippedIdempotency string
  | Missing "string list"
  | Issued string string string instant

text \<open>The row that an insert with these four columns creates (column defaults).\<close>

definition new_link :: "string \<Rightarrow> string \<Rightarrow> string \<Rightarrow> string \<Rightarrow> instant \<Rightarrow> case_link" where
  "new_link newId caseId tokenHash passcodeHash expiresAt =
     \<lparr> link_id = newId, case_id = caseId, token_hash = tokenHash,
       passcode_hash = passcodeHash, expires_at = expiresAt, revoked_at = None,
       attempt_count = 0, locked_until = None, view_count = 0, last_viewed_at = None \<rparr>"

text \<open>
  \<open>.insert(_)\<close> on \<open>case_links\<close>: an error for a store fault, a duplicate \<open>token_hash\<close>
  (unique index), a duplicate \<open>id\<close> (primary key) or a \<open>case_id\<close> without its case
  (foreign key).
\<close>

definition insert_link :: "faults \<Rightarrow> store \<Rightarrow> case_link \<Rightarrow> bool \<times> store" where
  "insert_link f s r =
     (if links_insert_fails f
         \<or> token_hash r \<in> set (map token_hash (links_table s))
         \<or> link_id r \<in> set (map link_id (links_table s))
         \<or> case_id r \<notin> set (map row_id (cases_table s))
      then (False, s)
      else (True, s\<lparr> links_table := links_table s @ [r] \<rparr>))"

text \<open>The "revoke existing links" update of both issuing handlers.\<close>

definition revoke_links :: "faults \<Rightarrow> store \<Rightarrow> string \<Rightarrow> instant \<Rightarrow> store" where
  "revoke_links f s caseId t =
     update_links f s (\<lambda>r. case_id r = caseId \<and> revoked_at r = None)
       (\<lambda>r. r\<lparr> revoked_at := Some t \<rparr>)"

definition update_cases ::
  "faults \<Rightarrow> store \<Rightarrow> (case_row \<Rightarrow> bool) \<Rightarrow> (case_row \<Rightarrow> case_row) \<Rightarrow> store" where
  "update_cases f s p upd =
     (if cases_update_fails f then s
      else s\<lparr> cases_table := map (\<lambda>c. if p c then upd c else c) (cases_table s) \<rparr>)"

text \<open>
  The handler of \<open>regenerate_link/index.ts\<close>; the body is its \<open>case_id\<close>. The update of the
  Pipedrive deal, an outside call inside its own \<open>try\<close>, changes neither the store nor the
  reply and is left out.
\<close>

definition regenerate_link ::
  "digest_fn \<Rightarrow> environ \<Rightarrow> faults \<Rightarrow> clock \<Rightarrow> fresh \<Rightarrow> store \<Rightarrow> string request
     \<Rightarrow> gen_reply response \<times> store" where
  "regenerate_link digest vars f clk fr s req =
     (if req_method req = ''OPTIONS'' then (Plain 200 ''ok'', s)
      else if req_method req \<noteq> ''POST'' then (jsonResponse (Failed MethodNotAllowed) 405, s)
      else case body req of
        None \<Rightarrow> (jsonResponse (Failed Thrown) 500, s)
      | Some caseId \<Rightarrow>
         (if caseId = [] then (jsonResponse (Failed CaseIdRequired) 400, s)
          else if \<not> getServiceClient vars then (jsonResponse (Failed Thrown) 500, s)
          else (case env vars ''LINK_PEPPER'' of
            None \<Rightarrow> (jsonResponse (Failed Thrown) 500, s)
          | Some pepper \<Rightarrow>
             (case env vars ''APP_BASE_URL'' of
                None \<Rightarrow> (jsonResponse (Failed Thrown) 500, s)
              | Some appBaseUrl \<Rightarrow>
                 (case select_case f s caseId of
                    Row caseData \<Rightarrow>
                     (let s1 = revoke_links f s caseId (revoke_now clk);
                          tokenHash = hashWithPepper digest (rawToken fr) pepper;
                          passcodeHash = hashWithPepper digest (rawPasscode fr) pepper;
                          expiresAt = expiry_now clk + LINK_EXPIRY_DAYS * 24 * 60 * 60 * 1000;
                          (inserted, s2) = insert_link f s1
                             (new_link (new_link_id fr) caseId tokenHash passcodeHash expiresAt)
                      in if \<not> inserted then (jsonResponse (Failed CreateLinkFailed) 500, s2)
                         else
                           let caseUrl = appBaseUrl @ ''/cases/'' @ caseId @ ''?t='' @ rawToken fr;
                               s3 = update_cases f s2 (\<lambda>c. row_id c = caseId)
                                      (\<lambda>c. c\<lparr> last_generated_at := Some (generated_now clk) \<rparr>)
                           in (jsonResponse (Issued caseId caseUrl (rawPasscode fr) expiresAt) 200, s3))
                  | _ \<Rightarrow> (jsonResponse (Failed CaseNotFound) 404, s))))))"

text \<open>
  The link row that the authenticated route \<open>/api/generate\<close> inserts: the same columns
  with \<open>passcode_hash: ""\<close>.
\<close>

definition generate_route_link :: "string \<Rightarrow> string \<Rightarrow> string \<Rightarrow> instant \<Rightarrow> case_link" where
  "generate_route_link newId caseId tokenHash expiresAt =
     new_link newId caseId tokenHash [] expiresAt"

section \<open>Generation from the Pipedrive webhook\<close>

text \<open>
  The deal of the payload as the handler reads it in Steps 2 to 4: \<open>String(dealId)\<close>, the
  current and previous value of the generate-proposal field, the title, the industry
  and the W-2 count (integer counts only). The body is \<open>None\<close> when it does not parse,
  \<open>Some None\<close> when \<open>current\<close> or \<open>previous\<close> is absent.
\<close>

record deal_event =
  pipedriveDealdId :: string
  currentVal :: string
  previousVal :: string
  companyName :: string
  industryName :: string
  w2Count :: int

record 'b hook_request = "'b request" +
  secret :: "string option"

definition select_case_by_deal :: "faults \<Rightarrow> store \<Rightarrow> string \<Rightarrow> case_row selected" where
  "select_case_by_deal f s dealId =
     (if cases_select_fails f then SelectError
      else maybeSingle (filter (\<lambda>c. pipedrive_deal_id c = Some dealId) (cases_table s)))"

text \<open>
  \<open>.upsert(caseRow, { onConflict: "pipedrive_deal_id" }).select("id").single()\<close>. The
  statement \<open>ON CONFLICT (pipedrive_deal_id)\<close> needs a unique constraint on that column:
  without \<open>cases_pipedrive_deal_id_key\<close> the store answers with an error and writes
  nothing. With the constraint the row of the deal is overwritten and keeps its id, or a
  new row is inserted.
\<close>

definition upsert_case :: "faults \<Rightarrow> store \<Rightarrow> case_row \<Rightarrow> string selected \<times> store" where
  "upsert_case f s caseRow =
     (if cases_upsert_fails f \<or> \<not> deal_id_key s then (SelectError, s)
      else case filter (\<lambda>c. pipedrive_deal_id c = pipedrive_deal_id caseRow) (cases_table s) of
        [] \<Rightarrow>
          if row_id caseRow \<in> set (map row_id (cases_table s)) then (SelectError, s)
          else (Row (row_id caseRow), s\<lparr> cases_table := cases_table s @ [caseRow] \<rparr>)
      | [old] \<Rightarrow>
          (Row (row_id old),
           s\<lparr> cases_table :=
                map (\<lambda>c. if pipedrive_deal_id c = pipedrive_deal_id caseRow
                          then caseRow\<lparr> row_id := row_id c \<rparr> else c) (cases_table s) \<rparr>)
      | _ \<Rightarrow> (SelectError, s))"

definition missing_fields :: "deal_event \<Rightarrow> string list" where
  "missing_fields d =
     (if companyName d = [] then [''Deal Title (company name)''] else [])
     @ (if industryName d = [] then [''Industry''] else [])
     @ (if w2Count d = 0 \<or> w2Count d \<le> 0 then [''W-2 Count''] else [])"

text \<open>Step 6: the idempotency check on the row that the lookup returned.\<close>

definition within_idempotency_window :: "case_row selected \<Rightarrow> instant \<Rightarrow> bool" where
  "within_idempotency_window existingCase now =
     (case existingCase of
        Row c \<Rightarrow>
          (case last_generated_at c of
             None \<Rightarrow> False
           | Some lastGen \<Rightarrow> now - lastGen < IDEMPOTENCY_WINDOW_SECONDS * 1000)
      | _ \<Rightarrow> False)"

text \<open>Steps 7 and 8: the \<open>caseRow\<close> that the handler upserts.\<close>

definition case_row_of :: "clock \<Rightarrow> fresh \<Rightarrow> deal_event \<Rightarrow> case_row" where
  "case_row_of clk fr d =
     \<lparr> row_id = new_case_id fr, pipedrive_deal_id = Some (pipedriveDealdId d),
       company_name = companyName d, industry = industryName d,
       status = ''generated'', calc = pipedrive_calculate (year_now clk) (w2Count d),
       last_generated_at = Some (generated_now clk) \<rparr>"

text \<open>Steps 7 to 15, after the idempotency check has let the event through.\<close>

definition generate_steps ::
  "digest_fn \<Rightarrow> environ \<Rightarrow> faults \<Rightarrow> clock \<Rightarrow> fresh \<Rightarrow> store \<Rightarrow> deal_event
     \<Rightarrow> gen_reply response \<times> store" where
  "generate_steps digest vars f clk fr s d =
     (let caseRow = case_row_of clk fr d
      in case upsert_case f s caseRow of
        (Row caseId, s1) \<Rightarrow>
          (let s2 = revoke_links f s1 caseId (revoke_now clk) in
           (case env vars ''LINK_PEPPER'' of
             None \<Rightarrow> (jsonResponse (Failed Thrown) 500, s2)
           | Some pepper \<Rightarrow>
              (let tokenHash = hashWithPepper digest (rawToken fr) pepper;
                   passcodeHash = hashWithPepper digest (rawPasscode fr) pepper;
                   expiresAt = expiry_now clk + LINK_EXPIRY_DAYS * 24 * 60 * 60 * 1000;
                   (inserted, s3) = insert_link f s2
                      (new_link (new_link_id fr) caseId tokenHash passcodeHash expiresAt)
               in if \<not> inserted then (jsonResponse (Failed CreateLinkFailed) 500, s3)
                  else (case env vars ''APP_BASE_URL'' of
                    None \<Rightarrow> (jsonResponse (Failed Thrown) 500, s3)
                  | Some appBaseUrl \<Rightarrow>
                     (let caseUrl = appBaseUrl @ ''/cases/'' @ caseId @ ''?t='' @ rawToken fr
                      in (jsonResponse (Issued caseId caseUrl (rawPasscode fr) expiresAt) 200,
                          s3))))))
      | (_, s1) \<Rightarrow> (jsonResponse (Failed UpsertFailed) 500, s1))"

text \<open>
  The handler of \<open>generate_case_from_pipedrive\<close>. The calls to Pipedrive and Slack, each
  inside its own \<open>try\<close>, change neither the store nor the reply and are left out.
\<close>

definition generate_case_from_pipedrive ::
  "digest_fn \<Rightarrow> environ \<Rightarrow> faults \<Rightarrow> clock \<Rightarrow> fresh \<Rightarrow> store
     \<Rightarrow> (deal_event option) hook_request \<Rightarrow> gen_reply response \<times> store" where
  "generate_case_from_pipedrive digest vars f clk fr s req =
     (if req_method req \<noteq> ''POST'' then (jsonResponse (Failed MethodNotAllowed) 405, s)
      else case env vars ''PIPEDRIVE_WEBHOOK_SECRET'' of
        None \<Rightarrow> (jsonResponse (Failed Thrown) 500, s)
      | Some expectedSecret \<Rightarrow>
         (if secret req \<noteq> Some expectedSecret then (jsonResponse (Failed Unauthorized) 401, s)
          else (case body req of
            None \<Rightarrow> (jsonResponse (Failed Thrown) 500, s)
          | Some None \<Rightarrow> (jsonResponse Skipped 200, s)
          | Some (Some d) \<Rightarrow>
             (if env vars ''PIPEDRIVE_FIELD_GENERATE_PROPOSAL'' = None
                 \<or> env vars ''PIPEDRIVE_OPTION_GENERATE_YES'' = None
              then (jsonResponse (Failed Thrown) 500, s)
              else if Some (currentVal d) \<noteq> env vars ''PIPEDRIVE_OPTION_GENERATE_YES''
                      \<or> Some (previousVal d) = env vars ''PIPEDRIVE_OPTION_GENERATE_YES''
              then (jsonResponse Skipped 200, s)
              else if env vars ''PIPEDRIVE_FIELD_INDUSTRY'' = None
                      \<or> env vars ''PIPEDRIVE_FIELD_W2_COUNT'' = None
                      \<or> env vars ''PIPEDRIVE_FIELD_CASE_PAGE_URL'' = None
              then (jsonResponse (Failed Thrown) 500, s)
              else if missing_fields d \<noteq> []
              then (jsonResponse (Missing (missing_fields d)) 200, s)
              else if \<not> getServiceClient vars then (jsonResponse (Failed Thrown) 500, s)
              else
                let existingCase = select_case_by_deal f s (pipedriveDealdId d) in
                if within_idempotency_window existingCase (guard_now clk)
                then (case existingCase of
                        Row c \<Rightarrow> (jsonResponse (SkippedIdempotency (row_id c)) 200, s)
                      | _ \<Rightarrow> generate_steps digest vars f clk fr s d)
                else generate_steps digest vars f clk fr s d))))"

section \<open>A request sequence\<close>

text \<open>
  Verification requests served one after another: each is a pair of clock readings and
  the request, and each runs on the store the one before left.
\<close>

fun validate_all ::
  "digest_fn \<Rightarrow> environ \<Rightarrow> faults \<Rightarrow> store \<Rightarrow> (instant \<times> instant \<times> access_body request) list
     \<Rightarrow> AccessResponse response list \<times> store" where
  "validate_all digest vars f s [] = ([], s)"
| "validate_all digest vars f s ((now, dateNow, req) # rest) =
     (let (r, s1) = validate_case_access digest vars f now dateNow s req;
          (rs, s2) = validate_all digest vars f s1 rest
      in (r # rs, s2))"

section \<open>Hypotheses of the theorems\<close>

text \<open>
  A verification request that passes Step 1, an environment in which the handler gets
  its pepper and its store client, and the result of the lookup of Step 2.
\<close>

definition well_formed :: "access_body request \<Rightarrow> access_body \<Rightarrow> bool" where
  "well_formed req b =
     (req_method req = ''POST'' \<and> body req = Some b \<and> body_case_id b \<noteq> [] \<and> token b \<noteq> []
      \<and> passcode b \<noteq> [])"

definition configured :: "environ \<Rightarrow> string \<Rightarrow> bool" where
  "configured vars pepper = (env vars ''LINK_PEPPER'' = Some pepper \<and> getServiceClient vars)"

definition looked_up ::
  "digest_fn \<Rightarrow> faults \<Rightarrow> store \<Rightarrow> access_body \<Rightarrow> string \<Rightarrow> case_link selected" where
  "looked_up digest f s b pepper =
     select_link f s (hashWithPepper digest (token b) pepper) (body_case_id b)"


text \<open>
  A webhook request that passes Steps 1 to 5 of the handler with the deal \<open>d\<close>: the
  secret matches, the payload has \<open>current\<close> and \<open>previous\<close>, the generate-proposal field
  changed to the Yes option, the field keys are configured, no required field is
  missing, and the store client is created.
\<close>

definition passes_guards :: "environ \<Rightarrow> (deal_event option) hook_request \<Rightarrow> deal_event \<Rightarrow> bool" where
  "passes_guards vars req d =
     (req_method req = ''POST''
      \<and> env vars ''PIPEDRIVE_WEBHOOK_SECRET'' \<noteq> None
      \<and> secret req = env vars ''PIPEDRIVE_WEBHOOK_SECRET''
      \<and> body req = Some (Some d)
      \<and> env vars ''PIPEDRIVE_FIELD_GENERATE_PROPOSAL'' \<noteq> None
      \<and> env vars ''PIPEDRIVE_OPTION_GENERATE_YES'' = Some (currentVal d)
      \<and> Some (previousVal d) \<noteq> env vars ''PIPEDRIVE_OPTION_GENERATE_YES''
      \<and> env vars ''PIPEDRIVE_FIELD_INDUSTRY'' \<noteq> None
      \<and> env vars ''PIPEDRIVE_FIELD_W2_COUNT'' \<noteq> None
      \<and> env vars ''PIPEDRIVE_FIELD_CASE_PAGE_URL'' \<noteq> None
      \<and> missing_fields d = []
      \<and> getServiceClient vars)"

text \<open>
  A stand-in for the digest primitive in the closed examples: the first 32 bytes of the
  input, padded with zero bytes. Like SHA-256 it returns 32 bytes, and it tells apart the
  short strings of the examples.
\<close>

definition sample_digest :: digest_fn where
  "sample_digest bytes = map of_char (take 32 (bytes @ replicate 32 (CHR 0x00)))"

section \<open>Example data\<close>

text \<open>
  One case with one live link, for the closed examples: pepper \<open>pep\<close>, token \<open>tok\<close>,
  passcode \<open>123456\<close>, expiry at instant 5000000, on the schema with both migrations
  applied.
\<close>

definition sample_vars :: environ where
  "sample_vars key =
     (if key = ''LINK_PEPPER'' then Some ''pep''
      else if key = ''SUPABASE_URL'' then Some ''https://db.example''
      else if key = ''SUPABASE_SERVICE_ROLE_KEY'' then Some ''service-key''
      else if key = ''APP_BASE_URL'' then Some ''https://app.example''
      else if key = ''PIPEDRIVE_WEBHOOK_SECRET'' then Some ''hook-secret''
      else if key = ''PIPEDRIVE_FIELD_GENERATE_PROPOSAL'' then Some ''f_generate''
      else if key = ''PIPEDRIVE_OPTION_GENERATE_YES'' then Some ''42''
      else if key = ''PIPEDRIVE_FIELD_INDUSTRY'' then Some ''f_industry''
      else if key = ''PIPEDRIVE_FIELD_W2_COUNT'' then Some ''f_w2''
      else if key = ''PIPEDRIVE_FIELD_CASE_PAGE_URL'' then Some ''f_url''
      else None)"

definition sample_case :: case_row where
  "sample_case = \<lparr> row_id = ''c1'', pipedrive_deal_id = Some ''90724'',
     company_name = ''Acme Corp'', industry = ''Manufacturing'', status = ''generated'',
     calc = pipedrive_calculate 2026 20, last_generated_at = Some 1000 \<rparr>"

definition sample_link :: case_link where
  "sample_link = new_link ''l1'' ''c1'' (hashWithPepper sample_digest ''tok'' ''pep'')
     (hashWithPepper sample_digest ''123456'' ''pep'') 5000000"

definition sample_store :: store where
  "sample_store = \<lparr> cases_table = [sample_case], links_table = [sample_link],
     deal_id_key = False \<rparr>"

definition store_with :: "case_link \<Rightarrow> store" where
  "store_with l = \<lparr> cases_table = [sample_case], links_table = [l], deal_id_key = False \<rparr>"

definition access_body_of :: "string \<Rightarrow> string \<Rightarrow> access_body" where
  "access_body_of t p = \<lparr> body_case_id = ''c1'', token = t, passcode = p \<rparr>"

definition access_request_of :: "string \<Rightarrow> string \<Rightarrow> access_body request" where
  "access_request_of t p = \<lparr> req_method = ''POST'', body = Some (access_body_of t p) \<rparr>"




definition route_link :: case_link where
  "route_link = generate_route_link ''l1'' ''c1'' (hashWithPepper sample_digest ''tok'' ''pep'')
     5000000"

definition update_fault :: faults where
  "update_fault = no_faults\<lparr> links_update_fails := True \<rparr>"

text \<open>The state of a JSON reply of the validator.\<close>

definition state_of :: "AccessResponse response \<Rightarrow> AccessState option" where
  "state_of r = (case r of Plain st txt \<Rightarrow> None | Json st b \<Rightarrow> Some (state b))"

definition sample_clock :: clock where
  "sample_clock = \<lparr> year_now = 2026, guard_now = 30000, generated_now = 30001,
     revoke_now = 30002, expiry_now = 30003 \<rparr>"

definition sample_fresh :: fresh where
  "sample_fresh = \<lparr> rawToken = ''tok2'', rawPasscode = ''654321'', new_link_id = ''l2'',
     new_case_id = ''c2'' \<rparr>"

definition sample_deal :: deal_event where
  "sample_deal = \<lparr> pipedriveDealdId = ''90724'', currentVal = ''42'', previousVal = [],
     companyName = ''Acme Corp'', industryName = ''Manufacturing'', w2Count = 20 \<rparr>"

definition sample_hook_request :: "(deal_event option) hook_request" where
  "sample_hook_request = \<lparr> req_method = ''POST'', body = Some (Some sample_deal),
     secret = Some ''hook-secret'' \<rparr>"

section \<open>Properties of the calculation\<close>

lemma bitlen_le: "m < 2 ^ k \<Longrightarrow> bitlen m \<le> k"
proof (induction k arbitrary: m)
  case 0
  then show ?case by (simp add: bitlen.simps)
next
  case (Suc k)
  show ?case
  proof (cases "m \<le> 0")
    case True
    then show ?thesis by (simp add: bitlen.simps)
  next
    case False
    from Suc.prems have "m div 2 < 2 ^ k" by simp
    then have "bitlen (m div 2) \<le> k" by (rule Suc.IH)
    with False show ?thesis by (subst bitlen.simps) simp
  qed
qed

lemma round_to_double_exact:
  assumes "\<bar>x\<bar> < 2 ^ 53"
  shows "round_to_double x = x"
proof -
  from assms have "bitlen \<bar>x\<bar> \<le> 53" by (rule bitlen_le)
  then show ?thesis by (simp add: round_to_double_def Let_def)
qed

section \<open>Lemmas on the store and the validator\<close>

lemma maybeSingle_Row: "maybeSingle rows = Row r \<longleftrightarrow> rows = [r]"
  by (cases rows; cases "tl rows") (auto simp: maybeSingle_def split: list.splits)

lemma select_link_Row:
  "select_link f s th cid = Row l \<longleftrightarrow>
     (\<not> links_select_fails f
      \<and> filter (\<lambda>r. token_hash r = th \<and> case_id r = cid) (links_table s) = [l])"
  by (simp add: select_link_def maybeSingle_Row)

lemma select_link_fields:
  assumes "select_link f s th cid = Row l"
  shows "token_hash l = th" and "case_id l = cid"
proof -
  from assms have "l \<in> set (filter (\<lambda>r. token_hash r = th \<and> case_id r = cid) (links_table s))"
    by (simp add: select_link_Row)
  then show "token_hash l = th" and "case_id l = cid" by simp_all
qed

lemma select_link_update:
  assumes sel: "select_link f s th cid = Row l"
    and wr: "\<not> links_update_fails f"
    and keep: "\<And>r. token_hash (upd r) = token_hash r \<and> case_id (upd r) = case_id r"
  shows "select_link f (update_links f s (\<lambda>r. link_id r = link_id l) upd) th cid = Row (upd l)"
proof -
  let ?P = "\<lambda>r. token_hash r = th \<and> case_id r = cid"
  let ?g = "\<lambda>r. if link_id r = link_id l then upd r else r"
  from sel have nf: "\<not> links_select_fails f" and one: "filter ?P (links_table s) = [l]"
    by (simp_all add: select_link_Row)
  have "?P \<circ> ?g = ?P" using keep by (auto simp: fun_eq_iff)
  then have "filter ?P (map ?g (links_table s)) = map ?g (filter ?P (links_table s))"
    by (simp add: filter_map)
  with one have "filter ?P (map ?g (links_table s)) = [upd l]" by simp
  with nf wr show ?thesis by (simp add: select_link_Row update_links_def)
qed

lemma validate_found:
  assumes "well_formed req b" "configured vars pepper" "looked_up digest f s b pepper = Row l"
  shows "validate_case_access digest vars f now dateNow s req =
    (if revoked_at l \<noteq> None then (jsonResponse (reply False revoked) 200, s)
     else if expires_at l < now then (jsonResponse (reply False expired) 200, s)
     else if is_locked l now
       then (jsonResponse ((reply False locked)\<lparr> unlock_at := locked_until l \<rparr>) 200, s)
     else if hashWithPepper digest (passcode b) pepper \<noteq> passcode_hash l
       then wrong_passcode_step f dateNow s l
     else correct_passcode_step f now s l (body_case_id b))"
  using assms
  by (simp add: well_formed_def configured_def looked_up_def validate_case_access_def Let_def)






lemma sample_well_formed: "p \<noteq> [] \<Longrightarrow> t \<noteq> [] \<Longrightarrow> well_formed (access_request_of t p) (access_body_of t p)"
  by (simp add: well_formed_def access_request_of_def access_body_of_def)

lemma sample_configured: "configured sample_vars ''pep''"
  by (simp add: configured_def getServiceClient_def env_def sample_vars_def)

lemma toString16_byte: "n < 256 \<Longrightarrow> length (padStart 2 c (toString16 n)) = 2"
proof -
  assume n: "n < 256"
  show ?thesis
  proof (cases "n < 16")
    case True
    then show ?thesis by (simp add: toString16.simps padStart_def)
  next
    case False
    from n have "n div 16 < 16" by simp
    then have "toString16 (n div 16) = [hexdigit (n div 16)]" by (simp add: toString16.simps)
    with False show ?thesis by (subst toString16.simps) (simp add: padStart_def)
  qed
qed

lemma hashWithPepper_length:
  "length (hashWithPepper digest v pepper) = 2 * length (digest (pepper @ v))"
proof -
  have "length (concat (map (\<lambda>b. padStart 2 c (toString16 (unat b))) bs)) = 2 * length bs"
    for bs :: "8 word list" and c
  proof (induction bs)
    case Nil
    then show ?case by simp
  next
    case (Cons x xs)
    have "unat x < 256" using unsigned_less [of x] by simp
    with Cons show ?case by (simp add: toString16_byte)
  qed
  then show ?thesis by (simp add: hashWithPepper_def)
qed

lemma filter_map_keep: "(\<And>r. P (g r) = P r) \<Longrightarrow> filter P (map g xs) = map g (filter P xs)"
  by (induction xs) auto

lemma filter_unique_hash:
  assumes "distinct (map token_hash xs)" and "l \<in> set xs" and "case_id l = cid"
  shows "filter (\<lambda>r. token_hash r = token_hash l \<and> case_id r = cid) xs = [l]"
  using assms
proof (induction xs)
  case Nil
  then show ?case by simp
next
  case (Cons x xs)
  show ?case
  proof (cases "x = l")
    case True
    with Cons.prems have "\<forall>r \<in> set xs. token_hash r \<noteq> token_hash l"
      by (auto simp: image_iff)
    then have "filter (\<lambda>r. token_hash r = token_hash l \<and> case_id r = cid) xs = []"
      by (auto simp: filter_empty_conv)
    with True Cons.prems show ?thesis by simp
  next
    case False
    with Cons.prems have "l \<in> set xs" and "token_hash x \<noteq> token_hash l" by force+
    with Cons show ?thesis by simp
  qed
qed

lemma regenerate_link_links:
  assumes post: "req_method req = ''POST''" "body req = Some cid" "cid \<noteq> []"
    and cf: "configured vars pepper" and url: "env vars ''APP_BASE_URL'' = Some appBaseUrl"
    and subject: "select_case f s cid = Row c"
    and wr: "\<not> links_update_fails f"
  shows "\<exists>extra. links_table (snd (regenerate_link digest vars f clk fr s req))
           = map (\<lambda>r. if case_id r = cid \<and> revoked_at r = None
                       then r\<lparr> revoked_at := Some (revoke_now clk) \<rparr> else r) (links_table s)
             @ extra
         \<and> (\<forall>n. n \<in> set extra \<longrightarrow> token_hash n \<notin> set (map token_hash (links_table s)))"
proof -
  let ?g = "\<lambda>r. if case_id r = cid \<and> revoked_at r = None
                  then r\<lparr> revoked_at := Some (revoke_now clk) \<rparr> else r"
  let ?s1 = "revoke_links f s cid (revoke_now clk)"
  let ?row = "new_link (new_link_id fr) cid (hashWithPepper digest (rawToken fr) pepper)
     (hashWithPepper digest (rawPasscode fr) pepper)
     (expiry_now clk + LINK_EXPIRY_DAYS * 24 * 60 * 60 * 1000)"
  have s1: "links_table ?s1 = map ?g (links_table s)"
    using wr by (simp add: revoke_links_def update_links_def)
  have "token_hash \<circ> ?g = token_hash" by (auto simp: fun_eq_iff)
  then have hashes: "map token_hash (map ?g (links_table s)) = map token_hash (links_table s)"
    by simp
  have ins: "links_table (snd (insert_link f ?s1 ?row)) = map ?g (links_table s) @ []
      \<or> (links_table (snd (insert_link f ?s1 ?row)) = map ?g (links_table s) @ [?row]
          \<and> token_hash ?row \<notin> set (map token_hash (links_table s)))"
    using s1 hashes by (auto simp: insert_link_def simp del: map_map)
  have res: "links_table (snd (regenerate_link digest vars f clk fr s req))
      = links_table (snd (insert_link f ?s1 ?row))"
    using post cf url subject
    by (simp add: regenerate_link_def configured_def Let_def split_def update_cases_def)
  from ins show ?thesis
  proof
    assume "links_table (snd (insert_link f ?s1 ?row)) = map ?g (links_table s) @ []"
    with res show ?thesis by (intro exI [of _ "[]"]) simp
  next
    assume "links_table (snd (insert_link f ?s1 ?row)) = map ?g (links_table s) @ [?row]
          \<and> token_hash ?row \<notin> set (map token_hash (links_table s))"
    with res show ?thesis by (intro exI [of _ "[?row]"]) simp
  qed
qed

lemma single_Row: "single rows = Row r \<longleftrightarrow> rows = [r]"
  by (cases rows; cases "tl rows") (auto simp: single_def split: list.splits)

lemma select_case_Row:
  "select_case f s cid = Row c \<longleftrightarrow>
     (\<not> cases_select_fails f \<and> filter (\<lambda>c. row_id c = cid) (cases_table s) = [c])"
  by (simp add: select_case_def single_Row)

section \<open>The access validator: claims\<close>






text \<open>
  Claim C3. A right passcode on a link that is found, not revoked, not expired and not
  locked, with the store taking the update and holding the case of the link: the reply
  is \<open>ok\<close> with state \<open>success\<close> and, as data, the id, the company name, the industry,
  the status and the calculation fields (\<open>calc_total\<close>, \<open>calc_er\<close>, \<open>calc_ee\<close>,
  \<open>calc_inputs\<close>) of the case whose id is the \<open>case_id\<close> of the link; the row of the link
  afterwards has \<open>attempt_count\<close> 0, \<open>view_count\<close> raised by one and
  \<open>last_viewed_at = now\<close>; no row with another id changes, and neither does the table of
  cases.
\<close>

theorem right_passcode_resets_and_counts_view:
  assumes wf: "well_formed req b" and cf: "configured vars pepper"
    and found: "looked_up digest f s b pepper = Row l"
    and live: "revoked_at l = None" "\<not> expires_at l < now" "\<not> is_locked l now"
    and right: "hashWithPepper digest (passcode b) pepper = passcode_hash l"
    and wr: "\<not> links_update_fails f"
    and subject: "select_case f s (body_case_id b) = Row c"
  shows "validate_case_access digest vars f now dateNow s req
           = (Json 200
                \<lparr> ok = True, state = success,
                  data = Some
                    \<lparr> data_id = row_id c, data_company_name = company_name c,
                      data_industry = industry c,
                      data_calc =
                        \<lparr> calc_total = calc_total (calc c), calc_er = calc_er (calc c),
                          calc_ee = calc_ee (calc c), calc_inputs = calc_inputs (calc c) \<rparr>,
                      data_status = status c \<rparr>,
                  remaining_attempts = None, unlock_at = None \<rparr>,
              s\<lparr> links_table := map (\<lambda>r. if link_id r = link_id l
                   then r\<lparr> attempt_count := 0, view_count := view_count l + 1,
                           last_viewed_at := Some now \<rparr>
                   else r) (links_table s) \<rparr>)
       \<and> row_id c = case_id l
       \<and> c \<in> set (cases_table s)
       \<and> looked_up digest f (snd (validate_case_access digest vars f now dateNow s req)) b pepper
           = Row (l\<lparr> attempt_count := 0, view_count := view_count l + 1,
                     last_viewed_at := Some now \<rparr>)"
proof -
  let ?upd = "\<lambda>r. r\<lparr> attempt_count := 0, view_count := view_count l + 1,
                       last_viewed_at := Some now \<rparr>"
  let ?s' = "update_links f s (\<lambda>r. link_id r = link_id l) ?upd"
  have sc: "select_case f ?s' (body_case_id b) = Row c"
    using subject by (auto simp: select_case_def update_links_def split: if_splits)
  have v: "validate_case_access digest vars f now dateNow s req
      = (jsonResponse ((reply True success)\<lparr> data := Some (case_data_of c) \<rparr>) 200, ?s')"
    using live right sc
    by (simp add: validate_found [OF wf cf found] correct_passcode_step_def Let_def)
  have payload: "jsonResponse ((reply True success)\<lparr> data := Some (case_data_of c) \<rparr>) 200
      = Json 200
                \<lparr> ok = True, state = success,
                  data = Some
                    \<lparr> data_id = row_id c, data_company_name = company_name c,
                      data_industry = industry c,
                      data_calc =
                        \<lparr> calc_total = calc_total (calc c), calc_er = calc_er (calc c),
                          calc_ee = calc_ee (calc c), calc_inputs = calc_inputs (calc c) \<rparr>,
                      data_status = status c \<rparr>,
                  remaining_attempts = None, unlock_at = None \<rparr>"
    by (simp add: jsonResponse_def reply_def case_data_of_def)
  from subject have cin: "c \<in> set (filter (\<lambda>c. row_id c = body_case_id b) (cases_table s))"
    by (simp add: select_case_Row)
  then have own: "row_id c = case_id l" "c \<in> set (cases_table s)"
    using select_link_fields(2) [OF found [unfolded looked_up_def]] by simp_all
  have "select_link f ?s' (hashWithPepper digest (token b) pepper) (body_case_id b)
      = Row (?upd l)"
    using found wr unfolding looked_up_def by (intro select_link_update) simp_all
  with v payload own wr show ?thesis by (simp add: looked_up_def update_links_def)
qed

theorem right_passcode_resets_and_counts_view_witness:
  "well_formed (access_request_of ''tok'' ''123456'') (access_body_of ''tok'' ''123456'')
   \<and> configured sample_vars ''pep''
   \<and> looked_up sample_digest no_faults (store_with (sample_link\<lparr> attempt_count := 7 \<rparr>))
        (access_body_of ''tok'' ''123456'') ''pep'' = Row (sample_link\<lparr> attempt_count := 7 \<rparr>)
   \<and> hashWithPepper sample_digest ''123456'' ''pep'' = passcode_hash sample_link
   \<and> select_case no_faults (store_with (sample_link\<lparr> attempt_count := 7 \<rparr>)) ''c1''
       = Row sample_case
   \<and> row_id sample_case = case_id sample_link
   \<and> validate_case_access sample_digest sample_vars no_faults 1000 1001
        (store_with (sample_link\<lparr> attempt_count := 7 \<rparr>)) (access_request_of ''tok'' ''123456'')
       = (Json 200
            \<lparr> ok = True, state = success,
              data = Some
                \<lparr> data_id = ''c1'', data_company_name = ''Acme Corp'',
                  data_industry = ''Manufacturing'',
                  data_calc =
                    \<lparr> calc_total = 67140, calc_er = 23740, calc_ee = 43400,
                      calc_inputs = \<lparr> w2_count = 20, tax_year = 2026, rate_total = 3357,
                        rate_er = 1187, rate_ee = 2170 \<rparr> \<rparr>,
                  data_status = ''generated'' \<rparr>,
              remaining_attempts = None, unlock_at = None \<rparr>,
          \<lparr> cases_table = [sample_case],
            links_table = [sample_link\<lparr> attempt_count := 0, view_count := 1,
              last_viewed_at := Some 1000 \<rparr>],
            deal_id_key = False \<rparr>)"
proof -
  let ?l = "sample_link\<lparr> attempt_count := 7 \<rparr>"
  have wf: "well_formed (access_request_of ''tok'' ''123456'') (access_body_of ''tok'' ''123456'')"
    by (simp add: sample_well_formed)
  have found: "looked_up sample_digest no_faults (store_with ?l)
      (access_body_of ''tok'' ''123456'') ''pep'' = Row ?l"
    by code_simp
  have right: "hashWithPepper sample_digest (passcode (access_body_of ''tok'' ''123456'')) ''pep''
      = passcode_hash ?l"
    by code_simp
  have live: "revoked_at ?l = None" "\<not> expires_at ?l < 1000" "\<not> is_locked ?l 1000"
    by (simp_all add: sample_link_def new_link_def is_locked_def)
  have wr: "\<not> links_update_fails no_faults" by (simp add: no_faults_def)
  have subject: "select_case no_faults (store_with ?l)
      (body_case_id (access_body_of ''tok'' ''123456'')) = Row sample_case"
    by code_simp
  have fields: "row_id sample_case = ''c1''" "company_name sample_case = ''Acme Corp''"
      "industry sample_case = ''Manufacturing''" "status sample_case = ''generated''"
      "calc_total (calc sample_case) = 67140" "calc_er (calc sample_case) = 23740"
      "calc_ee (calc sample_case) = 43400"
      "calc_inputs (calc sample_case) = \<lparr> w2_count = 20, tax_year = 2026, rate_total = 3357,
                        rate_er = 1187, rate_ee = 2170 \<rparr>"
    by code_simp+
  note th = right_passcode_resets_and_counts_view [OF wf sample_configured found live right wr
      subject, of 1001]
  have own: "row_id sample_case = case_id sample_link"
    using th by simp
  have res: "validate_case_access sample_digest sample_vars no_faults 1000 1001
        (store_with ?l) (access_request_of ''tok'' ''123456'')
       = (Json 200
            \<lparr> ok = True, state = success,
              data = Some
                \<lparr> data_id = ''c1'', data_company_name = ''Acme Corp'',
                  data_industry = ''Manufacturing'',
                  data_calc =
                    \<lparr> calc_total = 67140, calc_er = 23740, calc_ee = 43400,
                      calc_inputs = \<lparr> w2_count = 20, tax_year = 2026, rate_total = 3357,
                        rate_er = 1187, rate_ee = 2170 \<rparr> \<rparr>,
                  data_status = ''generated'' \<rparr>,
              remaining_attempts = None, unlock_at = None \<rparr>,
          \<lparr> cases_table = [sample_case],
            links_table = [sample_link\<lparr> attempt_count := 0, view_count := 1,
              last_viewed_at := Some 1000 \<rparr>],
            deal_id_key = False \<rparr>)"
    using th unfolding fields
    by (simp add: store_with_def sample_link_def new_link_def)
  from wf sample_configured found right subject own res show ?thesis
    by (simp add: access_body_of_def)
qed



text \<open>
  When the update of a wrong attempt fails, the reply is the one of a recorded attempt
  and the store is the one before the request.
\<close>

lemma failed_update_same_reply:
  assumes wf: "well_formed req b" and cf: "configured vars pepper"
    and found: "looked_up digest f s b pepper = Row l"
    and live: "revoked_at l = None" "\<not> expires_at l < now" "\<not> is_locked l now"
    and wrong: "hashWithPepper digest (passcode b) pepper \<noteq> passcode_hash l"
    and fails: "links_update_fails f"
  shows "validate_case_access digest vars f now dateNow s req
           = (jsonResponse (if 10 \<le> attempt_count l + 1 then reply False locked
               else (reply False wrong_passcode)
                      \<lparr> remaining_attempts := Some (10 - (attempt_count l + 1)) \<rparr>) 200, s)"
  using live wrong fails
  by (simp add: validate_found [OF wf cf found] wrong_passcode_step_def update_links_def
      Let_def MAX_ATTEMPTS_def)

text \<open>
  Claim C6 fails on the code. The update that records a wrong attempt comes back with an
  error and changes nothing; the handler drops the result of the call and answers
  \<open>wrong_passcode\<close> with 9 remaining attempts, and the store after the request is the
  store before it. Twelve such attempts in a row get the same reply and never a lock.
\<close>

theorem unrecorded_attempt_still_wrong_passcode:
  "links_update_fails update_fault
   \<and> validate_case_access sample_digest sample_vars update_fault 1000 1001 sample_store
        (access_request_of ''tok'' ''000000'')
       = (jsonResponse ((reply False wrong_passcode)\<lparr> remaining_attempts := Some 9 \<rparr>) 200,
          sample_store)
   \<and> validate_all sample_digest sample_vars update_fault sample_store
        (replicate 12 (1000, 1001, access_request_of ''tok'' ''000000''))
       = (replicate 12
            (jsonResponse ((reply False wrong_passcode)\<lparr> remaining_attempts := Some 9 \<rparr>) 200),
          sample_store)"
  by code_simp

text \<open>
  Claim C10. With a digest primitive that returns 32 bytes, \<open>hashWithPepper\<close> returns 64
  characters, so a stored \<open>passcode_hash\<close> that is the empty string (the row of the
  authenticated route) equals the hash of no passcode: a request that reaches such a
  link is never answered \<open>success\<close>, and while the link is neither revoked nor expired
  the answer is \<open>wrong_passcode\<close> or \<open>locked\<close>.
\<close>

theorem empty_passcode_hash_never_succeeds:
  assumes sha: "\<And>x. length (digest x) = 32"
    and wf: "well_formed req b" and cf: "configured vars pepper"
    and found: "looked_up digest f s b pepper = Row l"
    and empty: "passcode_hash l = []"
  shows "length (hashWithPepper digest (passcode b) pepper) = 64
       \<and> state_of (fst (validate_case_access digest vars f now dateNow s req)) \<noteq> Some success
       \<and> (revoked_at l = None \<and> \<not> expires_at l < now \<longrightarrow>
            state_of (fst (validate_case_access digest vars f now dateNow s req))
              = Some wrong_passcode
            \<or> state_of (fst (validate_case_access digest vars f now dateNow s req))
              = Some locked)"
proof -
  have len: "length (hashWithPepper digest (passcode b) pepper) = 64"
    using sha by (simp add: hashWithPepper_length)
  then have ne: "hashWithPepper digest (passcode b) pepper \<noteq> passcode_hash l"
    using empty by auto
  have st: "state_of (fst (wrong_passcode_step f dateNow s l)) = Some wrong_passcode
      \<or> state_of (fst (wrong_passcode_step f dateNow s l)) = Some locked"
    by (simp add: wrong_passcode_step_def Let_def state_of_def jsonResponse_def reply_def)
  have v: "validate_case_access digest vars f now dateNow s req =
    (if revoked_at l \<noteq> None then (jsonResponse (reply False revoked) 200, s)
     else if expires_at l < now then (jsonResponse (reply False expired) 200, s)
     else if is_locked l now
       then (jsonResponse ((reply False locked)\<lparr> unlock_at := locked_until l \<rparr>) 200, s)
     else wrong_passcode_step f dateNow s l)"
    using ne by (simp add: validate_found [OF wf cf found])
  have a: "state_of (fst (validate_case_access digest vars f now dateNow s req)) \<noteq> Some success"
    using st unfolding v by (auto simp: state_of_def jsonResponse_def reply_def)
  have b: "state_of (fst (validate_case_access digest vars f now dateNow s req))
              = Some wrong_passcode
            \<or> state_of (fst (validate_case_access digest vars f now dateNow s req))
              = Some locked"
    if "revoked_at l = None" "\<not> expires_at l < now"
    using st that unfolding v by (auto simp: state_of_def jsonResponse_def reply_def)
  from len a b show ?thesis by blast
qed

theorem empty_passcode_hash_never_succeeds_witness:
  "(\<forall>x. length (sample_digest x) = 32)
   \<and> well_formed (access_request_of ''tok'' ''123456'') (access_body_of ''tok'' ''123456'')
   \<and> configured sample_vars ''pep''
   \<and> looked_up sample_digest no_faults (store_with route_link)
        (access_body_of ''tok'' ''123456'') ''pep'' = Row route_link
   \<and> passcode_hash route_link = []
   \<and> revoked_at route_link = None
   \<and> \<not> expires_at route_link < 1000
   \<and> length (hashWithPepper sample_digest ''123456'' ''pep'') = 64
   \<and> state_of (fst (validate_case_access sample_digest sample_vars no_faults 1000 1001
         (store_with route_link) (access_request_of ''tok'' ''123456''))) = Some wrong_passcode"
proof -
  have sha: "length (sample_digest x) = 32" for x by (simp add: sample_digest_def)
  have wf: "well_formed (access_request_of ''tok'' ''123456'') (access_body_of ''tok'' ''123456'')"
    by (simp add: sample_well_formed)
  have found: "looked_up sample_digest no_faults (store_with route_link)
      (access_body_of ''tok'' ''123456'') ''pep'' = Row route_link"
    by code_simp
  have row: "passcode_hash route_link = []" "revoked_at route_link = None"
      "\<not> expires_at route_link < 1000"
    by (simp_all add: route_link_def generate_route_link_def new_link_def)
  have res: "state_of (fst (validate_case_access sample_digest sample_vars no_faults 1000 1001
         (store_with route_link) (access_request_of ''tok'' ''123456''))) \<noteq> Some locked"
    by code_simp
  from empty_passcode_hash_never_succeeds [OF sha wf sample_configured found row(1),
      of 1000 1001] row res sha wf sample_configured found
  show ?thesis by (simp add: access_body_of_def)
qed

section \<open>Issuance and generation: claims\<close>

text \<open>
  Claim C7. A regeneration request for an existing case, with the store taking the
  update and token hashes unique (the index on \<open>token_hash\<close>):
  every row that was in \<open>case_links\<close> stays in its place, and each row of the case that was
  not revoked now has \<open>revoked_at\<close> equal to the clock reading of the revocation; a later
  verification request with the token of any link of the case that was active before is
  answered \<open>revoked\<close>. The revocation comes before the insert and does not touch the new
  link: when the store accepts the insert, the reply is the issued link, the table is the
  old rows as revoked followed by the one new row, which is not revoked and has zero
  counters and the hashes of the new token and passcode, and a verification request with
  the new token and passcode before the expiry is answered \<open>success\<close>. When the store
  refuses the insert, the reply is the 500 error and the table is the old rows as revoked.
\<close>

theorem regenerate_revokes_previous_links:
  assumes post: "req_method req = ''POST''" "body req = Some cid" "cid \<noteq> []"
    and cf: "configured vars pepper" and url: "env vars ''APP_BASE_URL'' = Some appBaseUrl"
    and subject: "select_case f s cid = Row c"
    and wr: "\<not> links_update_fails f"
    and uniq: "distinct (map token_hash (links_table s))"
    and old: "l \<in> set (links_table s)" "case_id l = cid" "revoked_at l = None"
    and wf: "well_formed vreq b"
    and same: "body_case_id b = cid" "hashWithPepper digest (token b) pepper = token_hash l"
    and rd: "\<not> links_select_fails f'"
  shows "take (length (links_table s))
            (links_table (snd (regenerate_link digest vars f clk fr s req)))
           = map (\<lambda>r. if case_id r = cid \<and> revoked_at r = None
                       then r\<lparr> revoked_at := Some (revoke_now clk) \<rparr> else r) (links_table s)
       \<and> validate_case_access digest vars f' now dateNow
            (snd (regenerate_link digest vars f clk fr s req)) vreq
           = (Json 200 \<lparr> ok = False, state = revoked, data = None, remaining_attempts = None,
                          unlock_at = None \<rparr>,
              snd (regenerate_link digest vars f clk fr s req))
       \<and> (\<not> links_insert_fails f
            \<and> hashWithPepper digest (rawToken fr) pepper \<notin> set (map token_hash (links_table s))
            \<and> new_link_id fr \<notin> set (map link_id (links_table s))
          \<longrightarrow> fst (regenerate_link digest vars f clk fr s req)
                = Json 200 (Issued cid (appBaseUrl @ ''/cases/'' @ cid @ ''?t='' @ rawToken fr)
                    (rawPasscode fr) (expiry_now clk + 30 * 24 * 60 * 60 * 1000))
              \<and> links_table (snd (regenerate_link digest vars f clk fr s req))
                = map (\<lambda>r. if case_id r = cid \<and> revoked_at r = None
                       then r\<lparr> revoked_at := Some (revoke_now clk) \<rparr> else r) (links_table s)
                  @ [\<lparr> link_id = new_link_id fr, case_id = cid,
                       token_hash = hashWithPepper digest (rawToken fr) pepper,
                       passcode_hash = hashWithPepper digest (rawPasscode fr) pepper,
                       expires_at = expiry_now clk + 30 * 24 * 60 * 60 * 1000,
                       revoked_at = None, attempt_count = 0, locked_until = None,
                       view_count = 0, last_viewed_at = None \<rparr>]
              \<and> (well_formed nreq nb \<and> body_case_id nb = cid \<and> token nb = rawToken fr
                   \<and> passcode nb = rawPasscode fr
                   \<and> \<not> expiry_now clk + 30 * 24 * 60 * 60 * 1000 < now'
                   \<and> \<not> cases_select_fails f'
                 \<longrightarrow> state_of (fst (validate_case_access digest vars f' now' dateNow'
                        (snd (regenerate_link digest vars f clk fr s req)) nreq))
                      = Some success))
       \<and> (links_insert_fails f
            \<or> hashWithPepper digest (rawToken fr) pepper \<in> set (map token_hash (links_table s))
            \<or> new_link_id fr \<in> set (map link_id (links_table s))
          \<longrightarrow> fst (regenerate_link digest vars f clk fr s req)
                = Json 500 (Failed CreateLinkFailed)
              \<and> links_table (snd (regenerate_link digest vars f clk fr s req))
                = map (\<lambda>r. if case_id r = cid \<and> revoked_at r = None
                       then r\<lparr> revoked_at := Some (revoke_now clk) \<rparr> else r) (links_table s))"
proof -
  let ?g = "\<lambda>r. if case_id r = cid \<and> revoked_at r = None
                  then r\<lparr> revoked_at := Some (revoke_now clk) \<rparr> else r"
  let ?res = "regenerate_link digest vars f clk fr s req"
  let ?s' = "snd ?res"
  let ?th = "hashWithPepper digest (rawToken fr) pepper"
  let ?exp = "expiry_now clk + 2592000000"
  have e: "(30::int) * 24 * 60 * 60 * 1000 = 2592000000" by simp
  let ?row = "\<lparr> link_id = new_link_id fr, case_id = cid, token_hash = ?th,
                passcode_hash = hashWithPepper digest (rawPasscode fr) pepper,
                expires_at = ?exp, revoked_at = None, attempt_count = 0,
                locked_until = None, view_count = 0, last_viewed_at = None \<rparr>"
  let ?s1 = "revoke_links f s cid (revoke_now clk)"
  let ?h = "\<lambda>c. c\<lparr> last_generated_at := Some (generated_now clk) \<rparr>"
  txt \<open>The old rows and the old token.\<close>
  from regenerate_link_links [OF post cf url subject wr, of digest clk fr]
  obtain extra where ex: "links_table ?s' = map ?g (links_table s) @ extra"
    and fresh: "\<And>n. n \<in> set extra \<Longrightarrow> token_hash n \<notin> set (map token_hash (links_table s))"
    by blast
  let ?P = "\<lambda>r. token_hash r = token_hash l \<and> case_id r = cid"
  have one: "filter ?P (links_table s) = [l]"
    using uniq old(1,2) by (rule filter_unique_hash)
  have "filter ?P (map ?g (links_table s)) = map ?g (filter ?P (links_table s))"
    by (rule filter_map_keep) simp
  with one old have m: "filter ?P (map ?g (links_table s)) = [l\<lparr> revoked_at := Some (revoke_now clk) \<rparr>]"
    by simp
  have "filter ?P extra = []"
    using fresh old(1) by (auto simp: filter_empty_conv)
  with m ex have "filter ?P (links_table ?s') = [l\<lparr> revoked_at := Some (revoke_now clk) \<rparr>]"
    by simp
  with rd same have "looked_up digest f' ?s' b pepper = Row (l\<lparr> revoked_at := Some (revoke_now clk) \<rparr>)"
    by (simp add: looked_up_def select_link_Row)
  from validate_found [OF wf cf this, of now dateNow]
  have B: "validate_case_access digest vars f' now dateNow ?s' vreq
      = (Json 200 \<lparr> ok = False, state = revoked, data = None, remaining_attempts = None,
                          unlock_at = None \<rparr>, ?s')"
    by (simp add: jsonResponse_def reply_def)
  from ex have A: "take (length (links_table s)) (links_table ?s') = map ?g (links_table s)"
    by simp
  txt \<open>The handler after the case is found: revoke, then insert.\<close>
  have reg: "?res =
      (if \<not> fst (insert_link f ?s1 ?row)
       then (jsonResponse (Failed CreateLinkFailed) 500, snd (insert_link f ?s1 ?row))
       else (jsonResponse (Issued cid (appBaseUrl @ ''/cases/'' @ cid @ ''?t='' @ rawToken fr)
                (rawPasscode fr) ?exp) 200,
             update_cases f (snd (insert_link f ?s1 ?row)) (\<lambda>c. row_id c = cid) ?h))"
    using post cf url subject
    by (simp add: regenerate_link_def configured_def Let_def split_def new_link_def
        LINK_EXPIRY_DAYS_def)
  have s1l: "links_table ?s1 = map ?g (links_table s)"
    using wr by (simp add: revoke_links_def update_links_def)
  have s1c: "cases_table ?s1 = cases_table s"
    by (simp add: revoke_links_def update_links_def)
  have "token_hash \<circ> ?g = token_hash" by (auto simp: fun_eq_iff)
  then have hashes: "map token_hash (map ?g (links_table s)) = map token_hash (links_table s)"
    by simp
  have "link_id \<circ> ?g = link_id" by (auto simp: fun_eq_iff)
  then have ids: "map link_id (map ?g (links_table s)) = map link_id (links_table s)"
    by simp
  from subject have cs: "filter (\<lambda>c. row_id c = cid) (cases_table s) = [c]"
    by (simp add: select_case_Row)
  then have "c \<in> set (filter (\<lambda>c. row_id c = cid) (cases_table s))" by simp
  then have has_case: "cid \<in> set (map row_id (cases_table s))" by auto
  have ins: "insert_link f ?s1 ?row =
      (if links_insert_fails f \<or> ?th \<in> set (map token_hash (links_table s))
          \<or> new_link_id fr \<in> set (map link_id (links_table s))
       then (False, ?s1)
       else (True, ?s1\<lparr> links_table := map ?g (links_table s) @ [?row] \<rparr>))"
    using has_case
    by (simp add: insert_link_def s1l s1c hashes ids del: map_map)
  txt \<open>The insert is refused.\<close>
  have D: "fst ?res = Json 500 (Failed CreateLinkFailed)
      \<and> links_table ?s' = map ?g (links_table s)"
    if "links_insert_fails f \<or> ?th \<in> set (map token_hash (links_table s))
          \<or> new_link_id fr \<in> set (map link_id (links_table s))"
    using that by (simp add: reg ins s1l jsonResponse_def)
  txt \<open>The insert is accepted.\<close>
  have C: "fst ?res = Json 200 (Issued cid (appBaseUrl @ ''/cases/'' @ cid @ ''?t='' @ rawToken fr)
                    (rawPasscode fr) ?exp)
      \<and> links_table ?s' = map ?g (links_table s) @ [?row]
      \<and> (well_formed nreq nb \<and> body_case_id nb = cid \<and> token nb = rawToken fr
                   \<and> passcode nb = rawPasscode fr \<and> \<not> ?exp < now' \<and> \<not> cases_select_fails f'
          \<longrightarrow> state_of (fst (validate_case_access digest vars f' now' dateNow' ?s' nreq))
                = Some success)"
    if acc: "\<not> links_insert_fails f" "?th \<notin> set (map token_hash (links_table s))"
      "new_link_id fr \<notin> set (map link_id (links_table s))"
  proof -
    have i2: "insert_link f ?s1 ?row
        = (True, ?s1\<lparr> links_table := map ?g (links_table s) @ [?row] \<rparr>)"
      using acc by (simp add: ins)
    have res: "?res
        = (jsonResponse (Issued cid (appBaseUrl @ ''/cases/'' @ cid @ ''?t='' @ rawToken fr)
                (rawPasscode fr) ?exp) 200,
           update_cases f (?s1\<lparr> links_table := map ?g (links_table s) @ [?row] \<rparr>)
             (\<lambda>c. row_id c = cid) ?h)"
      by (simp add: reg i2)
    have r: "fst ?res = Json 200 (Issued cid (appBaseUrl @ ''/cases/'' @ cid @ ''?t='' @ rawToken fr)
                    (rawPasscode fr) ?exp)"
      unfolding res by (simp add: jsonResponse_def)
    have t: "links_table ?s' = map ?g (links_table s) @ [?row]"
      unfolding res by (simp add: update_cases_def)
    have ct: "cases_table ?s' = (if cases_update_fails f then cases_table s
        else map (\<lambda>c. if row_id c = cid then ?h c else c) (cases_table s))"
      unfolding res by (simp add: update_cases_def s1c)
    have v: "state_of (fst (validate_case_access digest vars f' now' dateNow' ?s' nreq))
                = Some success"
      if n: "well_formed nreq nb" "body_case_id nb = cid" "token nb = rawToken fr"
        "passcode nb = rawPasscode fr" "\<not> ?exp < now'" "\<not> cases_select_fails f'"
    proof -
      let ?Q = "\<lambda>r. token_hash r = ?th \<and> case_id r = cid"
      have nohash: "token_hash r \<noteq> ?th" if "r \<in> set (links_table s)" for r
        using acc(2) that by (auto simp: image_iff)
      have "filter ?Q (links_table s) = []"
        unfolding filter_empty_conv using nohash by blast
      moreover have "filter ?Q (map ?g (links_table s)) = map ?g (filter ?Q (links_table s))"
        by (rule filter_map_keep) simp
      ultimately have "filter ?Q (map ?g (links_table s)) = []" by simp
      with t have "filter ?Q (links_table ?s') = [?row]" by simp
      with rd n(2,3) have found: "looked_up digest f' ?s' nb pepper = Row ?row"
        by (simp add: looked_up_def select_link_Row)
      let ?R = "\<lambda>c. row_id c = cid"
      have "filter ?R (map (\<lambda>c. if row_id c = cid then ?h c else c) (cases_table s))
          = map (\<lambda>c. if row_id c = cid then ?h c else c) (filter ?R (cases_table s))"
        by (rule filter_map_keep) simp
      with cs ct have "\<exists>c'. filter ?R (cases_table ?s') = [c']" by auto
      then obtain c' where c': "filter ?R (cases_table ?s') = [c']" ..
      have sc: "select_case f' (update_links f' ?s' p u) cid = Row c'" for p u
        using c' n(6) by (simp add: select_case_Row update_links_def)
      from validate_found [OF n(1) cf found, of now' dateNow'] n(2,4,5) sc
      show ?thesis
        by (simp add: is_locked_def correct_passcode_step_def Let_def state_of_def
            jsonResponse_def reply_def)
    qed
    from r t v show ?thesis by blast
  qed
  show ?thesis unfolding e using A B C D by blast
qed

theorem regenerate_revokes_previous_links_witness:
  "select_case no_faults sample_store ''c1'' = Row sample_case
   \<and> distinct (map token_hash (links_table sample_store))
   \<and> sample_link \<in> set (links_table sample_store)
   \<and> revoked_at sample_link = None
   \<and> hashWithPepper sample_digest ''tok2'' ''pep''
        \<notin> set (map token_hash (links_table sample_store))
   \<and> ''l2'' \<notin> set (map link_id (links_table sample_store))
   \<and> fst (regenerate_link sample_digest sample_vars no_faults sample_clock sample_fresh
           sample_store \<lparr> req_method = ''POST'', body = Some ''c1'' \<rparr>)
       = Json 200 (Issued ''c1'' ''https://app.example/cases/c1?t=tok2'' ''654321'' 2592030003)
   \<and> links_table (snd (regenerate_link sample_digest sample_vars no_faults sample_clock
           sample_fresh sample_store \<lparr> req_method = ''POST'', body = Some ''c1'' \<rparr>))
       = [sample_link\<lparr> revoked_at := Some 30002 \<rparr>,
          \<lparr> link_id = ''l2'', case_id = ''c1'',
            token_hash = hashWithPepper sample_digest ''tok2'' ''pep'',
            passcode_hash = hashWithPepper sample_digest ''654321'' ''pep'',
            expires_at = 2592030003, revoked_at = None, attempt_count = 0,
            locked_until = None, view_count = 0, last_viewed_at = None \<rparr>]
   \<and> validate_case_access sample_digest sample_vars no_faults 40000 40001
         (snd (regenerate_link sample_digest sample_vars no_faults sample_clock sample_fresh
                sample_store \<lparr> req_method = ''POST'', body = Some ''c1'' \<rparr>))
         (access_request_of ''tok'' ''123456'')
       = (Json 200 \<lparr> ok = False, state = revoked, data = None, remaining_attempts = None,
                      unlock_at = None \<rparr>,
          snd (regenerate_link sample_digest sample_vars no_faults sample_clock sample_fresh
                sample_store \<lparr> req_method = ''POST'', body = Some ''c1'' \<rparr>))
   \<and> state_of (fst (validate_case_access sample_digest sample_vars no_faults 40000 40001
         (snd (regenerate_link sample_digest sample_vars no_faults sample_clock sample_fresh
                sample_store \<lparr> req_method = ''POST'', body = Some ''c1'' \<rparr>))
         (access_request_of ''tok2'' ''654321''))) = Some success"
proof -
  let ?req = "\<lparr> req_method = ''POST'', body = Some ''c1'' \<rparr> :: string request"
  have post: "req_method ?req = ''POST''" "body ?req = Some ''c1''" "''c1'' \<noteq> []"
    by simp_all
  have url: "env sample_vars ''APP_BASE_URL'' = Some ''https://app.example''"
    by (simp add: env_def sample_vars_def)
  have subject: "select_case no_faults sample_store ''c1'' = Row sample_case"
    by code_simp
  have wr: "\<not> links_update_fails no_faults" and rd: "\<not> links_select_fails no_faults"
    and ins: "\<not> links_insert_fails no_faults" and cs: "\<not> cases_select_fails no_faults"
    by (simp_all add: no_faults_def)
  have uniq: "distinct (map token_hash (links_table sample_store))"
    by (simp add: sample_store_def)
  have old: "sample_link \<in> set (links_table sample_store)" "case_id sample_link = ''c1''"
      "revoked_at sample_link = None"
    by (simp_all add: sample_store_def sample_link_def new_link_def)
  have wf: "well_formed (access_request_of ''tok'' ''123456'') (access_body_of ''tok'' ''123456'')"
    by (simp add: sample_well_formed)
  have same: "body_case_id (access_body_of ''tok'' ''123456'') = ''c1''"
      "hashWithPepper sample_digest (token (access_body_of ''tok'' ''123456'')) ''pep''
         = token_hash sample_link"
    by (simp_all add: access_body_of_def sample_link_def new_link_def)
  have newhash: "hashWithPepper sample_digest (rawToken sample_fresh) ''pep''
      \<notin> set (map token_hash (links_table sample_store))"
    by code_simp
  have newid: "new_link_id sample_fresh \<notin> set (map link_id (links_table sample_store))"
    by code_simp
  have nwf: "well_formed (access_request_of ''tok2'' ''654321'') (access_body_of ''tok2'' ''654321'')"
    by (simp add: sample_well_formed)
  have nb: "body_case_id (access_body_of ''tok2'' ''654321'') = ''c1''"
      "token (access_body_of ''tok2'' ''654321'') = rawToken sample_fresh"
      "passcode (access_body_of ''tok2'' ''654321'') = rawPasscode sample_fresh"
      "\<not> expiry_now sample_clock + 30 * 24 * 60 * 60 * 1000 < 40000"
    by (simp_all add: access_body_of_def sample_fresh_def sample_clock_def)
  note th = regenerate_revokes_previous_links [OF post sample_configured url subject wr uniq old
      wf same rd, where clk = sample_clock and fr = sample_fresh and now = 40000
      and dateNow = 40001 and nreq = "access_request_of ''tok2'' ''654321''"
      and nb = "access_body_of ''tok2'' ''654321''" and now' = 40000 and dateNow' = 40001]
  from th have B: "validate_case_access sample_digest sample_vars no_faults 40000 40001
         (snd (regenerate_link sample_digest sample_vars no_faults sample_clock sample_fresh
                sample_store ?req))
         (access_request_of ''tok'' ''123456'')
       = (Json 200 \<lparr> ok = False, state = revoked, data = None, remaining_attempts = None,
                      unlock_at = None \<rparr>,
          snd (regenerate_link sample_digest sample_vars no_faults sample_clock sample_fresh
                sample_store ?req))"
    by blast
  from th ins newhash newid
  have C: "fst (regenerate_link sample_digest sample_vars no_faults sample_clock sample_fresh
           sample_store ?req)
       = Json 200 (Issued ''c1'' (''https://app.example'' @ ''/cases/'' @ ''c1'' @ ''?t=''
            @ rawToken sample_fresh) (rawPasscode sample_fresh)
            (expiry_now sample_clock + 30 * 24 * 60 * 60 * 1000))"
    and T: "links_table (snd (regenerate_link sample_digest sample_vars no_faults sample_clock
           sample_fresh sample_store ?req))
       = map (\<lambda>r. if case_id r = ''c1'' \<and> revoked_at r = None
                       then r\<lparr> revoked_at := Some (revoke_now sample_clock) \<rparr> else r)
           (links_table sample_store)
         @ [\<lparr> link_id = new_link_id sample_fresh, case_id = ''c1'',
               token_hash = hashWithPepper sample_digest (rawToken sample_fresh) ''pep'',
               passcode_hash = hashWithPepper sample_digest (rawPasscode sample_fresh) ''pep'',
               expires_at = expiry_now sample_clock + 30 * 24 * 60 * 60 * 1000,
               revoked_at = None, attempt_count = 0, locked_until = None,
               view_count = 0, last_viewed_at = None \<rparr>]"
    and N: "state_of (fst (validate_case_access sample_digest sample_vars no_faults 40000 40001
         (snd (regenerate_link sample_digest sample_vars no_faults sample_clock sample_fresh
                sample_store ?req))
         (access_request_of ''tok2'' ''654321''))) = Some success"
    using nwf nb cs by blast+
  have C': "fst (regenerate_link sample_digest sample_vars no_faults sample_clock sample_fresh
           sample_store ?req)
       = Json 200 (Issued ''c1'' ''https://app.example/cases/c1?t=tok2'' ''654321'' 2592030003)"
    unfolding C by (simp add: sample_fresh_def sample_clock_def)
  have T': "links_table (snd (regenerate_link sample_digest sample_vars no_faults sample_clock
           sample_fresh sample_store ?req))
       = [sample_link\<lparr> revoked_at := Some 30002 \<rparr>,
          \<lparr> link_id = ''l2'', case_id = ''c1'',
            token_hash = hashWithPepper sample_digest ''tok2'' ''pep'',
            passcode_hash = hashWithPepper sample_digest ''654321'' ''pep'',
            expires_at = 2592030003, revoked_at = None, attempt_count = 0,
            locked_until = None, view_count = 0, last_viewed_at = None \<rparr>]"
    unfolding T using old(2,3) by (simp add: sample_store_def sample_fresh_def sample_clock_def)
  have newhash': "hashWithPepper sample_digest ''tok2'' ''pep''
        \<notin> set (map token_hash (links_table sample_store))"
    using newhash by (simp add: sample_fresh_def)
  have newid': "''l2'' \<notin> set (map link_id (links_table sample_store))"
    using newid by (simp add: sample_fresh_def)
  show ?thesis
    by (intro conjI subject uniq old(1) old(3) newhash' newid' C' T' B N)
qed

text \<open>
  The webhook handler revokes in the same way once its upsert has returned the id of the
  case, which needs the unique constraint of migration 00001: every row of that case
  that was not revoked is revoked, and the new row, if any, comes after the old ones with
  a token hash none of them has. Without the constraint the upsert is an error, and a
  trigger that the idempotency check lets through is answered with the 500 error of the
  upsert and writes nothing.
\<close>

lemma webhook_without_constraint_fails:
  assumes guards: "passes_guards vars req d"
    and due: "\<not> within_idempotency_window (select_case_by_deal f s (pipedriveDealdId d))
                 (guard_now clk)"
    and dropped: "\<not> deal_id_key s"
  shows "generate_case_from_pipedrive digest vars f clk fr s req
           = (jsonResponse (Failed UpsertFailed) 500, s)"
proof -
  from guards obtain sec where sec: "env vars ''PIPEDRIVE_WEBHOOK_SECRET'' = Some sec"
      "secret req = Some sec"
    by (auto simp: passes_guards_def)
  from guards sec due have "generate_case_from_pipedrive digest vars f clk fr s req
      = generate_steps digest vars f clk fr s d"
    by (auto simp: passes_guards_def generate_case_from_pipedrive_def Let_def)
  with dropped show ?thesis
    by (simp add: generate_steps_def upsert_case_def Let_def)
qed

lemma upsert_case_links: "links_table (snd (upsert_case f s caseRow)) = links_table s"
  by (simp add: upsert_case_def split: list.splits)

lemma generate_steps_links:
  assumes up: "fst (upsert_case f s (case_row_of clk fr d)) = Row cid"
    and wr: "\<not> links_update_fails f"
  shows "\<exists>extra. links_table (snd (generate_steps digest vars f clk fr s d))
           = map (\<lambda>r. if case_id r = cid \<and> revoked_at r = None
                       then r\<lparr> revoked_at := Some (revoke_now clk) \<rparr> else r) (links_table s)
             @ extra
         \<and> (\<forall>n. n \<in> set extra \<longrightarrow> token_hash n \<notin> set (map token_hash (links_table s)))"
proof -
  let ?g = "\<lambda>r. if case_id r = cid \<and> revoked_at r = None
                  then r\<lparr> revoked_at := Some (revoke_now clk) \<rparr> else r"
  let ?s1 = "snd (upsert_case f s (case_row_of clk fr d))"
  let ?s2 = "revoke_links f ?s1 cid (revoke_now clk)"
  have s2: "links_table ?s2 = map ?g (links_table s)"
    using wr by (simp add: revoke_links_def update_links_def upsert_case_links)
  have "token_hash \<circ> ?g = token_hash" by (auto simp: fun_eq_iff)
  then have hashes: "map token_hash (map ?g (links_table s)) = map token_hash (links_table s)"
    by simp
  have ins: "links_table (snd (insert_link f ?s2 row)) = map ?g (links_table s) @ []
      \<or> (links_table (snd (insert_link f ?s2 row)) = map ?g (links_table s) @ [row]
          \<and> token_hash row \<notin> set (map token_hash (links_table s)))" for row
    using s2 hashes by (auto simp: insert_link_def simp del: map_map)
  have res: "links_table (snd (generate_steps digest vars f clk fr s d)) = links_table ?s2
      \<or> (\<exists>row. links_table (snd (generate_steps digest vars f clk fr s d))
            = links_table (snd (insert_link f ?s2 row)))"
    using up
    by (cases "upsert_case f s (case_row_of clk fr d)")
      (auto simp: generate_steps_def Let_def split_def split: option.splits)
  from res show ?thesis
  proof
    assume "links_table (snd (generate_steps digest vars f clk fr s d)) = links_table ?s2"
    with s2 show ?thesis by (intro exI [of _ "[]"]) simp
  next
    assume "\<exists>row. links_table (snd (generate_steps digest vars f clk fr s d))
            = links_table (snd (insert_link f ?s2 row))"
    then obtain row where r: "links_table (snd (generate_steps digest vars f clk fr s d))
            = links_table (snd (insert_link f ?s2 row))" ..
    from ins [of row] show ?thesis
    proof
      assume "links_table (snd (insert_link f ?s2 row)) = map ?g (links_table s) @ []"
      with r show ?thesis by (intro exI [of _ "[]"]) simp
    next
      assume "links_table (snd (insert_link f ?s2 row)) = map ?g (links_table s) @ [row]
          \<and> token_hash row \<notin> set (map token_hash (links_table s))"
      with r show ?thesis by (intro exI [of _ "[row]"]) simp
    qed
  qed
qed

lemma webhook_revokes_previous_links:
  assumes guards: "passes_guards vars req d"
    and due: "\<not> within_idempotency_window (select_case_by_deal f s (pipedriveDealdId d))
                 (guard_now clk)"
    and up: "fst (upsert_case f s (case_row_of clk fr d)) = Row cid"
    and cf: "configured vars pepper"
    and wr: "\<not> links_update_fails f"
    and uniq: "distinct (map token_hash (links_table s))"
    and old: "l \<in> set (links_table s)" "case_id l = cid" "revoked_at l = None"
    and wf: "well_formed vreq b"
    and same: "body_case_id b = cid" "hashWithPepper digest (token b) pepper = token_hash l"
    and rd: "\<not> links_select_fails f'"
  shows "validate_case_access digest vars f' now dateNow
            (snd (generate_case_from_pipedrive digest vars f clk fr s req)) vreq
           = (jsonResponse (reply False revoked) 200,
              snd (generate_case_from_pipedrive digest vars f clk fr s req))"
proof -
  let ?g = "\<lambda>r. if case_id r = cid \<and> revoked_at r = None
                  then r\<lparr> revoked_at := Some (revoke_now clk) \<rparr> else r"
  let ?s' = "snd (generate_case_from_pipedrive digest vars f clk fr s req)"
  from guards obtain sec where sec: "env vars ''PIPEDRIVE_WEBHOOK_SECRET'' = Some sec"
      "secret req = Some sec"
    by (auto simp: passes_guards_def)
  from guards sec due have "generate_case_from_pipedrive digest vars f clk fr s req
      = generate_steps digest vars f clk fr s d"
    by (auto simp: passes_guards_def generate_case_from_pipedrive_def Let_def)
  with generate_steps_links [OF up wr, of digest vars]
  obtain extra where ex: "links_table ?s' = map ?g (links_table s) @ extra"
    and fresh: "\<And>n. n \<in> set extra \<Longrightarrow> token_hash n \<notin> set (map token_hash (links_table s))"
    by auto
  let ?P = "\<lambda>r. token_hash r = token_hash l \<and> case_id r = cid"
  have one: "filter ?P (links_table s) = [l]"
    using uniq old(1,2) by (rule filter_unique_hash)
  have "filter ?P (map ?g (links_table s)) = map ?g (filter ?P (links_table s))"
    by (rule filter_map_keep) simp
  with one old have m: "filter ?P (map ?g (links_table s)) = [l\<lparr> revoked_at := Some (revoke_now clk) \<rparr>]"
    by simp
  have "filter ?P extra = []"
    using fresh old(1) by (auto simp: filter_empty_conv)
  with m ex have "filter ?P (links_table ?s') = [l\<lparr> revoked_at := Some (revoke_now clk) \<rparr>]"
    by simp
  with rd same have "looked_up digest f' ?s' b pepper = Row (l\<lparr> revoked_at := Some (revoke_now clk) \<rparr>)"
    by (simp add: looked_up_def select_link_Row)
  from validate_found [OF wf cf this, of now dateNow] show ?thesis by simp
qed

text \<open>
  Claim C8. A webhook request that passes the handler's guards, for a deal whose case
  the lookup returns with a \<open>last_generated_at\<close> less than 60 seconds before the clock
  reading of the check: the reply is \<open>skipped\<close> with reason \<open>idempotency_window\<close> and the id
  of that case, and the store is returned as it was (no upsert, no calculation, no
  revocation, no new link).
\<close>

theorem recent_case_skips_generation:
  assumes guards: "passes_guards vars req d"
    and existing: "select_case_by_deal f s (pipedriveDealdId d) = Row c"
    and generated: "last_generated_at c = Some lastGen"
    and recent: "guard_now clk - lastGen < 60 * 1000"
  shows "generate_case_from_pipedrive digest vars f clk fr s req
           = (jsonResponse (SkippedIdempotency (row_id c)) 200, s)"
proof -
  have w: "within_idempotency_window (Row c) (guard_now clk)"
    using generated recent
    by (simp add: within_idempotency_window_def IDEMPOTENCY_WINDOW_SECONDS_def)
  from guards obtain sec where sec: "env vars ''PIPEDRIVE_WEBHOOK_SECRET'' = Some sec"
      "secret req = Some sec"
    by (auto simp: passes_guards_def)
  from guards sec existing w show ?thesis
    by (auto simp: passes_guards_def generate_case_from_pipedrive_def Let_def)
qed

theorem recent_case_skips_generation_witness:
  "passes_guards sample_vars sample_hook_request sample_deal
   \<and> select_case_by_deal no_faults sample_store ''90724'' = Row sample_case
   \<and> last_generated_at sample_case = Some 1000
   \<and> guard_now sample_clock - 1000 < 60 * 1000
   \<and> generate_case_from_pipedrive sample_digest sample_vars no_faults sample_clock sample_fresh
        sample_store sample_hook_request
       = (jsonResponse (SkippedIdempotency ''c1'') 200, sample_store)"
proof -
  have guards: "passes_guards sample_vars sample_hook_request sample_deal"
    by code_simp
  have existing: "select_case_by_deal no_faults sample_store (pipedriveDealdId sample_deal)
      = Row sample_case"
    by code_simp
  have generated: "last_generated_at sample_case = Some 1000"
    by (simp add: sample_case_def)
  have recent: "guard_now sample_clock - 1000 < 60 * 1000"
    by (simp add: sample_clock_def)
  from recent_case_skips_generation [OF guards existing generated recent,
      of sample_digest sample_fresh]
    guards existing generated recent
  show ?thesis by (simp add: sample_deal_def sample_case_def)
qed

text \<open>
  Two deliveries of the same event on the schema of migration 00001 alone (the unique
  constraint in place): the first, on a store without the deal, creates case \<open>c2\<close> and
  its link; the second, 29 seconds later, is skipped with the id of that case and leaves
  the store of the first.
\<close>

lemma duplicate_delivery_is_skipped:
  "fst (generate_case_from_pipedrive sample_digest sample_vars no_faults
         (sample_clock\<lparr> guard_now := 900, generated_now := 1000 \<rparr>) sample_fresh
         \<lparr> cases_table = [], links_table = [], deal_id_key = True \<rparr> sample_hook_request)
     = jsonResponse (Issued ''c2'' ''https://app.example/cases/c2?t=tok2'' ''654321''
         (30003 + 30 * 24 * 60 * 60 * 1000)) 200
   \<and> generate_case_from_pipedrive sample_digest sample_vars no_faults sample_clock
         (sample_fresh\<lparr> new_case_id := ''c3'', new_link_id := ''l3'', rawToken := ''tok3'' \<rparr>)
         (snd (generate_case_from_pipedrive sample_digest sample_vars no_faults
                (sample_clock\<lparr> guard_now := 900, generated_now := 1000 \<rparr>) sample_fresh
                \<lparr> cases_table = [], links_table = [], deal_id_key = True \<rparr> sample_hook_request))
         sample_hook_request
     = (jsonResponse (SkippedIdempotency ''c2'') 200,
        snd (generate_case_from_pipedrive sample_digest sample_vars no_faults
                (sample_clock\<lparr> guard_now := 900, generated_now := 1000 \<rparr>) sample_fresh
                \<lparr> cases_table = [], links_table = [], deal_id_key = True \<rparr> sample_hook_request))"
  by code_simp

section \<open>The calculation: claims\<close>

text \<open>
  Claim C5 fails on the code. For 20 W-2 employees the webhook handler computes a total
  of 67140 and an employer share of 23740, \<open>calculateSavings\<close> a total of 67120 and an
  employer share of 23720: the handler multiplies by the rates 3357 and 1187 of the
  shared constants file, \<open>calculateSavings\<close> by 3356 and 1186. Only the employee share,
  43400, is the same.
\<close>

theorem pipedrive_rates_differ_from_calculator:
  "calc_total (pipedrive_calculate 2026 20) = 67140
   \<and> calc_total (calculateSavings 2026 20) = 67120
   \<and> calc_er (pipedrive_calculate 2026 20) = 23740
   \<and> calc_er (calculateSavings 2026 20) = 23720
   \<and> calc_ee (pipedrive_calculate 2026 20) = 43400
   \<and> calc_ee (calculateSavings 2026 20) = 43400"
  by code_simp

text \<open>
  The two totals differ for every positive count in the exact range, by the count itself.
\<close>

lemma pipedrive_total_exceeds_calculator:
  assumes "0 < n" and "n * shared_RATE_TOTAL < 2 ^ 53"
  shows "calc_total (pipedrive_calculate y n) = calc_total (calculateSavings y n) + n"
proof -
  from assms have a: "\<bar>n * 3357\<bar> < 2 ^ 53" by (simp add: shared_RATE_TOTAL_def)
  from assms have b: "\<bar>n * 3356\<bar> < 2 ^ 53" by (simp add: shared_RATE_TOTAL_def)
  have "number_mul n shared_RATE_TOTAL = n * 3357"
    using a by (simp add: number_mul_def shared_RATE_TOTAL_def round_to_double_exact)
  moreover have "number_mul n RATE_TOTAL = n * 3356"
    using b by (simp add: number_mul_def RATE_TOTAL_def round_to_double_exact)
  ultimately show ?thesis
    by (simp add: pipedrive_calculate_def calculateSavings_def Let_def)
qed

text \<open>
  Claim C9, as amended. For a positive integer \<open>n\<close> whose total \<open>n * RATE_TOTAL\<close> is below
  \<open>2 ^ 53\<close>, the total of \<open>calculateSavings\<close> is the sum of its two shares, both as the
  exact sum and as the sum the number type computes, and the rates of the calculator
  add up: \<open>RATE_TOTAL = RATE_ER + RATE_EE\<close>.
\<close>

theorem savings_total_is_sum_of_shares:
  assumes "0 < n" and "n * RATE_TOTAL < 2 ^ 53"
  shows "calc_total (calculateSavings y n)
           = number_add (calc_er (calculateSavings y n)) (calc_ee (calculateSavings y n))
       \<and> calc_total (calculateSavings y n)
           = calc_er (calculateSavings y n) + calc_ee (calculateSavings y n)
       \<and> RATE_TOTAL = RATE_ER + RATE_EE"
proof -
  from assms have t: "\<bar>n * 3356\<bar> < 2 ^ 53" by (simp add: RATE_TOTAL_def)
  from assms have e: "\<bar>n * 1186\<bar> < 2 ^ 53" by (simp add: RATE_TOTAL_def)
  from assms have f: "\<bar>n * 2170\<bar> < 2 ^ 53" by (simp add: RATE_TOTAL_def)
  have s: "n * 1186 + n * 2170 = n * 3356" by simp
  have 1: "number_mul n RATE_TOTAL = n * 3356"
    using t by (simp add: number_mul_def RATE_TOTAL_def round_to_double_exact)
  have 2: "number_mul n RATE_ER = n * 1186"
    using e by (simp add: number_mul_def RATE_ER_def round_to_double_exact)
  have 3: "number_mul n RATE_EE = n * 2170"
    using f by (simp add: number_mul_def RATE_EE_def round_to_double_exact)
  have 4: "number_add (n * 1186) (n * 2170) = n * 3356"
    unfolding number_add_def s using t by (rule round_to_double_exact)
  have 5: "RATE_TOTAL = RATE_ER + RATE_EE"
    by (simp add: RATE_TOTAL_def RATE_ER_def RATE_EE_def)
  show ?thesis
    using 4 5 by (simp add: calculateSavings_def Let_def 1 2 3)
qed

theorem savings_total_is_sum_of_shares_witness:
  "(0::int) < 20 \<and> 20 * RATE_TOTAL < 2 ^ 53
   \<and> calc_total (calculateSavings 2026 20) = 67120
   \<and> calc_er (calculateSavings 2026 20) = 23720
   \<and> calc_ee (calculateSavings 2026 20) = 43400
   \<and> calc_total (calculateSavings 2026 20)
       = number_add (calc_er (calculateSavings 2026 20)) (calc_ee (calculateSavings 2026 20))
   \<and> calc_total (calculateSavings 2026 20)
       = calc_er (calculateSavings 2026 20) + calc_ee (calculateSavings 2026 20)"
proof -
  have pos: "(0::int) < 20" by simp
  have small: "20 * RATE_TOTAL < 2 ^ 53" by (simp add: RATE_TOTAL_def)
  have vals: "calc_total (calculateSavings 2026 20) = 67120"
      "calc_er (calculateSavings 2026 20) = 23720" "calc_ee (calculateSavings 2026 20) = 43400"
    by code_simp+
  from savings_total_is_sum_of_shares [OF pos small, of 2026] pos small vals
  show ?thesis by simp
qed

text \<open>
  Claim C9 as stated fails for the positive integer 8301566133403: the product with
  2170 is not a double and is rounded, and so is the sum of the two shares, while the
  total is exact. The total is 27860055943700468 and the sum of the shares
  27860055943700472.
\<close>

theorem savings_sum_rounding_counterexample:
  "(0::int) < 8301566133403
   \<and> calc_total (calculateSavings 2026 8301566133403) = 27860055943700468
   \<and> number_add (calc_er (calculateSavings 2026 8301566133403))
        (calc_ee (calculateSavings 2026 8301566133403)) = 27860055943700472
   \<and> calc_total (calculateSavings 2026 8301566133403)
       \<noteq> number_add (calc_er (calculateSavings 2026 8301566133403))
            (calc_ee (calculateSavings 2026 8301566133403))"
  by code_simp

end
